theory Spec2Isabelle
  imports Main "HOL-Library.Sublist"
begin

section \<open>JavaScript values and strings\<close>

text \<open>
  The login module is JavaScript. Strings are modelled as \<open>string\<close> (lists of 8-bit
  characters standing for ASCII code units): \<open>toUpperCase\<close> and \<open>toLowerCase\<close> act on the
  letters a-z and A-Z and leave every other character alone, \<open>trim\<close> strips the ASCII white
  space and line terminators, and the line terminators that the regular-expression dot
  refuses are LF and CR. Code units outside ASCII are outside the model.

  Values whose type the source tests at run time (\<open>typeof\<close>, truthiness) are \<open>jsval\<close>.
  An exception is a value \<open>Inl e\<close> of a sum type. The log lines of the module are not
  modelled.
\<close>

datatype jsval = JUndefined | JNull | JBool bool | JStr string

fun truthy :: "jsval \<Rightarrow> bool" where
  "truthy JUndefined = False"
| "truthy JNull = False"
| "truthy (JBool b) = b"
| "truthy (JStr s) = (s \<noteq> [])"

text \<open>\<open>String(value)\<close>.\<close>

fun String_of :: "jsval \<Rightarrow> string" where
  "String_of JUndefined = ''undefined''"
| "String_of JNull = ''null''"
| "String_of (JBool b) = (if b then ''true'' else ''false'')"
| "String_of (JStr s) = s"

definition isWhiteSpace :: "char \<Rightarrow> bool" where
  "isWhiteSpace c = (c \<in> set [CHR 0x09, CHR 0x0A, CHR 0x0B, CHR 0x0C, CHR 0x0D, CHR '' ''])"

definition trim :: "string \<Rightarrow> string" where
  "trim s = rev (dropWhile isWhiteSpace (rev (dropWhile isWhiteSpace s)))"

definition lowerLetters :: string where
  "lowerLetters = ''abcdefghijklmnopqrstuvwxyz''"

definition upperLetters :: string where
  "upperLetters = ''ABCDEFGHIJKLMNOPQRSTUVWXYZ''"

definition toUpperChar :: "char \<Rightarrow> char" where
  "toUpperChar c = (case map_of (zip lowerLetters upperLetters) c of Some d \<Rightarrow> d | None \<Rightarrow> c)"

definition toLowerChar :: "char \<Rightarrow> char" where
  "toLowerChar c = (case map_of (zip upperLetters lowerLetters) c of Some d \<Rightarrow> d | None \<Rightarrow> c)"

definition toUpperCase :: "string \<Rightarrow> string" where
  "toUpperCase s = map toUpperChar s"

definition toLowerCase :: "string \<Rightarrow> string" where
  "toLowerCase s = map toLowerChar s"

text \<open>\<open>s.includes(sub)\<close>: \<open>sub\<close> occurs in \<open>s\<close> as a contiguous substring.\<close>

fun includes_str :: "string \<Rightarrow> string \<Rightarrow> bool" where
  "includes_str [] sub = (sub = [])"
| "includes_str (c # cs) sub = (prefix sub (c # cs) \<or> includes_str cs sub)"

text \<open>\<open>xs.join(sep)\<close> on an array of strings.\<close>

fun join :: "string \<Rightarrow> string list \<Rightarrow> string" where
  "join sep [] = []"
| "join sep [x] = x"
| "join sep (x # y # ys) = x @ sep @ join sep (y # ys)"

text \<open>
  \<open>s.split(c)\<close> for a one-character separator: the pieces between the separators, so
  that the empty string gives one empty piece.
\<close>

fun split :: "char \<Rightarrow> string \<Rightarrow> string list" where
  "split sep [] = [[]]"
| "split sep (c # cs) =
     (if c = sep then [] # split sep cs
      else (case split sep cs of p # ps \<Rightarrow> (c # p) # ps | [] \<Rightarrow> [[c]]))"

section \<open>Errors\<close>

text \<open>
  The reasons that the lock and suspension checks collect; a field that was not set is
  \<open>None\<close>.
\<close>

record suspendReasons =
  durationInfo :: "string option"
  longReason :: "string option"
  shortReason :: "string option"

record lockedReasons =
  reason :: "string option"

text \<open>
  \<open>Error msg\<close> is \<open>new Error(msg)\<close>; \<open>TypeError\<close> and \<open>ReferenceError\<close> are the
  run-time errors of the language; \<open>Locked\<close> and \<open>Suspended\<close> are the objects
  \<open>{locked: true, lockedReasons}\<close> and \<open>{suspended: true, suspendReasons}\<close> that the
  login helper throws as they are.
\<close>

datatype error =
  Error string
| TypeError
| ReferenceError string
| Locked lockedReasons
| Suspended suspendReasons

section \<open>Region selector\<close>

record region =
  code :: string
  name :: string
  location :: string

definition defaultRegions :: "region list" where
  "defaultRegions =
    [\<lparr>code = ''PRN'', name = ''Pacific Northwest Region'', location = ''Pacific Northwest''\<rparr>,
     \<lparr>code = ''VLL'', name = ''Valley Region'', location = ''Valley''\<rparr>,
     \<lparr>code = ''ASH'', name = ''Ashburn Region'', location = ''Ashburn''\<rparr>,
     \<lparr>code = ''DFW'', name = ''Dallas/Fort Worth Region'', location = ''Dallas/Fort Worth''\<rparr>,
     \<lparr>code = ''LLA'', name = ''Los Angeles Region'', location = ''Los Angeles''\<rparr>,
     \<lparr>code = ''FRA'', name = ''Frankfurt'', location = ''Frankfurt''\<rparr>,
     \<lparr>code = ''SIN'', name = ''Singapore'', location = ''Singapore''\<rparr>,
     \<lparr>code = ''NRT'', name = ''Tokyo'', location = ''Japan''\<rparr>,
     \<lparr>code = ''HKG'', name = ''Hong Kong'', location = ''Hong Kong''\<rparr>,
     \<lparr>code = ''SYD'', name = ''Sydney'', location = ''Sydney''\<rparr>,
     \<lparr>code = ''PNB'', name = ''Pacific Northwest - Beta'', location = ''Pacific Northwest''\<rparr>]"

definition supportedRegions :: string where
  "supportedRegions = join '', '' (map code defaultRegions)"

text \<open>
  \<open>validateRegion\<close> throws on a falsy, non-string or blank argument and on a code that
  is not in the catalog; both messages end with the list of supported codes.
\<close>

definition validateRegion :: "jsval \<Rightarrow> error + region" where
  "validateRegion regionCode =
     (case regionCode of
        JStr s \<Rightarrow>
          if s = [] \<or> trim s = [] then
            Inl (Error (''Region code must be a non-empty string. Supported regions: ''
                        @ supportedRegions))
          else
            (let c = toUpperCase (trim s) in
             case find (\<lambda>r. toUpperCase (code r) = c) defaultRegions of
               None \<Rightarrow>
                 Inl (Error (''Invalid region code: '' @ s @ ''. Supported regions: ''
                             @ supportedRegions))
             | Some r \<Rightarrow> Inr r)
      | _ \<Rightarrow>
          Inl (Error (''Region code must be a non-empty string. Supported regions: ''
                      @ supportedRegions)))"

text \<open>
  The older copy of the module has a \<open>validateRegion\<close> that returns \<open>null\<close>, here
  \<open>None\<close>, where the newer one throws (it logs the list of supported codes instead), and
  that compares with the catalog codes as they are written.
\<close>

definition validateRegion_v0 :: "jsval \<Rightarrow> region option" where
  "validateRegion_v0 regionCode =
     (case regionCode of
        JStr s \<Rightarrow>
          if s = [] then None
          else (let c = toUpperCase (trim s) in find (\<lambda>r. code r = c) defaultRegions)
      | _ \<Rightarrow> None)"

text \<open>
  \<open>getRandomRegion\<close> indexes the catalog with \<open>Math.floor(Math.random() * 11)\<close>; the
  random index is the parameter \<open>randomIndex\<close>, below the length of the catalog.
\<close>

definition getRandomRegion :: "nat \<Rightarrow> region" where
  "getRandomRegion randomIndex = defaultRegions ! (randomIndex mod length defaultRegions)"

section \<open>Stored sessions\<close>

text \<open>
  A normalized cookie is a record with every field present (\<open>val\<close> is the source's
  \<open>value\<close>, \<open>expires\<close> a time in milliseconds). An entry of a caller-supplied array may
  lack any field and may carry its key under \<open>name\<close>; an absent field is \<open>None\<close>.
\<close>

record cookie =
  key :: string
  val :: string
  domain :: string
  path :: string
  expires :: int

record rawCookie =
  raw_key :: "string option"
  raw_name :: "string option"
  raw_value :: "string option"
  raw_domain :: "string option"
  raw_path :: "string option"
  raw_expires :: "int option"

text \<open>
  The accepted shapes of \<open>appState\<close>: a delimited string, an array of cookie records, or
  an object, whose \<open>cookies\<close> property is again an \<open>appState\<close> or is absent. An absent
  \<open>appState\<close> (\<open>undefined\<close>) is \<open>None\<close>.
\<close>

datatype appStateInput =
  AppString string
| AppArray "rawCookie list"
| AppObject "appStateInput option"

text \<open>Truthiness of an optional string, of an optional number and of an \<open>appState\<close>.\<close>

fun truthyStr :: "string option \<Rightarrow> bool" where
  "truthyStr None = False"
| "truthyStr (Some s) = (s \<noteq> [])"

fun truthyNum :: "int option \<Rightarrow> bool" where
  "truthyNum None = False"
| "truthyNum (Some n) = (n \<noteq> 0)"

fun truthyAppState :: "appStateInput option \<Rightarrow> bool" where
  "truthyAppState None = False"
| "truthyAppState (Some (AppString s)) = (s \<noteq> [])"
| "truthyAppState (Some (AppArray cs)) = True"
| "truthyAppState (Some (AppObject c)) = True"

text \<open>\<open>1000 * 60 * 60 * 24 * 365\<close> milliseconds.\<close>

definition oneYear :: int where
  "oneYear = 1000 * 60 * 60 * 24 * 365"

text \<open>\<open>xs.map(f)\<close> where \<open>f\<close> may throw: the first exception ends the traversal.\<close>

fun mapE :: "('a \<Rightarrow> error + 'b) \<Rightarrow> 'a list \<Rightarrow> error + 'b list" where
  "mapE f [] = Inr []"
| "mapE f (x # xs) =
     (case f x of
        Inl e \<Rightarrow> Inl e
      | Inr y \<Rightarrow> (case mapE f xs of Inl e \<Rightarrow> Inl e | Inr ys \<Rightarrow> Inr (y # ys)))"

text \<open>
  One piece of a delimited string: \<open>const [key, value] = c.split("=")\<close> takes the first
  two pieces, and an absent or empty one is refused.
\<close>

definition cookieOfPiece :: "int \<Rightarrow> string \<Rightarrow> error + cookie" where
  "cookieOfPiece now c =
     (case split CHR ''='' c of
        k # v # rest \<Rightarrow>
          if k = [] \<or> v = [] then Inl (Error ''Invalid cookie string format'')
          else Inr \<lparr>key = trim k, val = trim v, domain = ''.facebook.com'', path = ''/'',
                    expires = now + oneYear\<rparr>
      | _ \<Rightarrow> Inl (Error ''Invalid cookie string format''))"

text \<open>One entry of an array: \<open>c.key || c.name\<close>, and the defaults for absent fields.\<close>

definition cookieOfEntry :: "int \<Rightarrow> rawCookie \<Rightarrow> error + cookie" where
  "cookieOfEntry now c =
     (let k = (if truthyStr (raw_key c) then raw_key c else raw_name c) in
      if \<not> truthyStr k \<or> \<not> truthyStr (raw_value c) then
        Inl (Error ''Invalid cookie object in array'')
      else
        Inr \<lparr>key = trim (the k), val = trim (the (raw_value c)),
             domain = (if truthyStr (raw_domain c) then the (raw_domain c) else ''.facebook.com''),
             path = (if truthyStr (raw_path c) then the (raw_path c) else ''/''),
             expires = (if truthyNum (raw_expires c) then the (raw_expires c)
                        else now + oneYear)\<rparr>)"

text \<open>
  \<open>normalizeAppState\<close>; \<open>now\<close> is \<open>new Date().getTime()\<close>. The string branch rethrows
  what its body throws with the prefix \<open>Failed to parse appState string: \<close>.
\<close>

fun errorMessage :: "error \<Rightarrow> string" where
  "errorMessage (Error m) = m"
| "errorMessage TypeError = ''TypeError''"
| "errorMessage (ReferenceError m) = m"
| "errorMessage (Locked r) = ''undefined''"
| "errorMessage (Suspended r) = ''undefined''"

fun normalizeAppState :: "int \<Rightarrow> appStateInput option \<Rightarrow> error + cookie list" where
  "normalizeAppState now None = Inr []"
| "normalizeAppState now (Some (AppString s)) =
     (if s = [] then Inr []
      else (case mapE (cookieOfPiece now) (filter (\<lambda>c. trim c \<noteq> []) (split CHR '';'' s)) of
              Inl e \<Rightarrow> Inl (Error (''Failed to parse appState string: '' @ errorMessage e))
            | Inr cs \<Rightarrow> Inr cs))"
| "normalizeAppState now (Some (AppArray cs)) = mapE (cookieOfEntry now) cs"
| "normalizeAppState now (Some (AppObject cookies)) =
     (if truthyAppState cookies then normalizeAppState now cookies
      else Inl (Error ''Unsupported appState format''))"

section \<open>Session handle: getCookie\<close>

text \<open>
  The syntax of cookies, which a cookie jar keeps to: a name contains neither \<open>=\<close> nor
  \<open>;\<close>, and a value contains no \<open>;\<close>.
\<close>

fun noChar :: "char \<Rightarrow> string option \<Rightarrow> bool" where
  "noChar c None = True"
| "noChar c (Some s) = (c \<notin> set s)"

definition cookieSyntax :: "rawCookie \<Rightarrow> bool" where
  "cookieSyntax r =
     (noChar CHR ''='' (raw_key r) \<and> noChar CHR '';'' (raw_key r)
      \<and> noChar CHR ''='' (raw_name r) \<and> noChar CHR '';'' (raw_name r)
      \<and> noChar CHR '';'' (raw_value r))"

definition importantKeys :: "string list" where
  "importantKeys =
     [''datr'', ''sb'', ''ps_l'', ''ps_n'', ''m_pixel_ratio'', ''c_user'', ''fr'', ''xs'',
      ''i_user'', ''locale'', ''fbl_st'', ''vpd'', ''wl_cbv'']"

text \<open>
  \<open>getCookie\<close> of the session handle. \<open>utils.getAppState(jar)\<close> is not part of the
  module; its result, the array of the jar's cookies, is the parameter \<open>jarAppState\<close>.
\<close>

definition getCookie :: "int \<Rightarrow> rawCookie list \<Rightarrow> error + string" where
  "getCookie now jarAppState =
     (case normalizeAppState now (Some (AppArray jarAppState)) of
        Inl e \<Rightarrow> Inl e
      | Inr appState \<Rightarrow>
          if appState = [] then Inr []
          else Inr (join ''; ''
                 (filter (\<lambda>cookie. hd (split CHR ''='' cookie) \<in> set importantKeys)
                    (map (\<lambda>v. key v @ ''='' @ val v) appState))))"

section \<open>Regular expressions of the module\<close>

text \<open>
  The patterns that the module matches against a response body are sequences of literal
  text, lazy runs \<open>.*?\<close> and greedy runs \<open>[^c]+\<close> of characters other than \<open>c\<close>.
  \<open>rxMatch\<close> matches such a pattern at the start of a string with the backtracking
  order of the language: a lazy run first tries to be empty, and takes one more
  character, never a line terminator, each time the rest of the pattern fails; a greedy
  run first takes all it can and gives back one character at a time, down to one. It
  returns the texts of the runs, in order. \<open>rxSearch\<close> is \<open>String.prototype.match\<close> or
  \<open>exec\<close>: the match at the leftmost start position that has one.
\<close>

datatype rx = Lit string | Lazy | NotChar1 char

definition isLineTerminator :: "char \<Rightarrow> bool" where
  "isLineTerminator c = (c = CHR 0x0A \<or> c = CHR 0x0D)"

fun firstSplit :: "(string \<Rightarrow> 'a option) \<Rightarrow> string \<Rightarrow> string \<Rightarrow> (string \<times> 'a) option" where
  "firstSplit k acc [] = (case k [] of Some r \<Rightarrow> Some (rev acc, r) | None \<Rightarrow> None)"
| "firstSplit k acc (c # cs) =
     (case k (c # cs) of
        Some r \<Rightarrow> Some (rev acc, r)
      | None \<Rightarrow> if isLineTerminator c then None else firstSplit k (c # acc) cs)"

fun greedySplit :: "(string \<Rightarrow> 'a option) \<Rightarrow> nat \<Rightarrow> string \<Rightarrow> (string \<times> 'a) option" where
  "greedySplit k 0 s = None"
| "greedySplit k (Suc n) s =
     (case k (drop (Suc n) s) of
        Some r \<Rightarrow> Some (take (Suc n) s, r)
      | None \<Rightarrow> greedySplit k n s)"

fun rxMatch :: "rx list \<Rightarrow> string \<Rightarrow> string list option" where
  "rxMatch [] s = Some []"
| "rxMatch (Lit p # ts) s = (if prefix p s then rxMatch ts (drop (length p) s) else None)"
| "rxMatch (Lazy # ts) s =
     (case firstSplit (\<lambda>u. rxMatch ts u) [] s of
        Some (g, gs) \<Rightarrow> Some (g # gs)
      | None \<Rightarrow> None)"
| "rxMatch (NotChar1 c # ts) s =
     (case greedySplit (\<lambda>u. rxMatch ts u) (length (takeWhile (\<lambda>x. x \<noteq> c) s)) s of
        Some (g, gs) \<Rightarrow> Some (g # gs)
      | None \<Rightarrow> None)"

fun rxSearch :: "rx list \<Rightarrow> string \<Rightarrow> string list option" where
  "rxSearch ts [] = rxMatch ts []"
| "rxSearch ts (c # cs) =
     (case rxMatch ts (c # cs) of Some gs \<Rightarrow> Some gs | None \<Rightarrow> rxSearch ts cs)"

text \<open>
  The text that a pattern spells out once its runs are given their texts: what a match
  with these texts covers.
\<close>

fun fill :: "rx list \<Rightarrow> string list \<Rightarrow> string" where
  "fill [] gs = []"
| "fill (Lit p # ts) gs = p @ fill ts gs"
| "fill (t # ts) [] = fill ts []"
| "fill (t # ts) (g # gs) = g @ fill ts gs"

text \<open>\<open>s.replace(pat, rep)\<close> with a string pattern: the first occurrence only.\<close>

fun replaceFirst :: "string \<Rightarrow> string \<Rightarrow> string \<Rightarrow> string" where
  "replaceFirst pat rep [] = (if pat = [] then rep else [])"
| "replaceFirst pat rep (c # cs) =
     (if prefix pat (c # cs) then rep @ drop (length pat) (c # cs)
      else c # replaceFirst pat rep cs)"

section \<open>Responses, the cookie jar and the environment\<close>

text \<open>
  A response as the module reads it: its body, the address it came from
  (\<open>request.uri.href\<close>) and the two headers that the login flow inspects. Each may be
  absent.
\<close>

record response =
  body :: "string option"
  href :: "string option"
  headers_location :: "string option"
  headers_set_cookie :: "string list option"

datatype request = GET string | POST string

text \<open>
  What the module takes from outside. The HTTP helpers, the cookie jar and
  \<open>utils.getFrom\<close> are not part of the module: \<open>net n\<close> is the outcome of the exchange
  issued after \<open>n\<close> earlier ones (a rejection is \<open>Inl\<close>), \<open>jarCookies n\<close> is what
  \<open>jar.getCookies("https://www.facebook.com")\<close> returns at that moment, and \<open>getFrom\<close>
  is \<open>utils.getFrom\<close>, which may throw. \<open>jsCookies\<close> is the planting of the
  \<open>_js_\<close> cookies of the login page (\<open>JSON.parse\<close> and \<open>utils.formatCookie\<close> on each
  piece), \<open>Inl\<close> when it throws. \<open>dateNow\<close> is the clock, \<open>randomIndex\<close> and
  \<open>randomHex\<close> are the random draws, \<open>userAgent\<close> is \<open>utils.generateUserAgent()\<close>,
  \<open>promptCode\<close> is what the console prompt for the two-factor code returns.
\<close>

record env =
  net :: "nat \<Rightarrow> error + response"
  jarCookies :: "nat \<Rightarrow> cookie list"
  getFrom :: "string option \<Rightarrow> string \<Rightarrow> string \<Rightarrow> error + string"
  jsCookies :: "string \<Rightarrow> error + unit"
  dateNow :: int
  randomIndex :: nat
  randomHex :: string
  userAgent :: string
  promptCode :: "error + string"

text \<open>
  The persisted token file \<open>fb_dtsg_data.json\<close>: absent; bad, that is, refused by
  \<open>JSON.parse\<close> or parsed to \<open>null\<close> or to a primitive value, on which the assignment
  of an entry throws (the module is in strict mode); a JSON object, as the map of its
  own properties from user id to the pair of tokens; or a JSON array, as the list of its
  elements, pairs or \<open>null\<close>.
\<close>

record tokenPair =
  fb_dtsg :: string
  jazoest :: string

datatype dtsgFile =
  NoFile
| BadFile
| Stored "string \<Rightarrow> tokenPair option"
| StoredArray "tokenPair option list"

text \<open>
  The mutable state: the module's \<open>state\<close> object (\<open>globalOptions\<close> and
  \<open>behaviorDetected\<close>), the requests issued so far, and the token file.
\<close>

record machine =
  globalOptions :: "string \<Rightarrow> jsval option"
  behaviorDetected :: bool
  requests :: "request list"
  dtsgFile :: dtsgFile

text \<open>An exchange: the request is recorded and the environment answers.\<close>

definition fetch :: "env \<Rightarrow> request \<Rightarrow> machine \<Rightarrow> (error + response) \<times> machine" where
  "fetch E rq m = (net E (length (requests m)), m\<lparr>requests := requests m @ [rq]\<rparr>)"

text \<open>
  The user id that the checkpoint functions resolve first: the argument when truthy, else
  the first \<open>i_user\<close> or \<open>c_user\<close> entry of the app state, else of the jar. An absent
  user id used as a property key or inside a template literal reads \<open>undefined\<close>.
\<close>

definition resolveUID :: "string option \<Rightarrow> cookie list \<Rightarrow> cookie list \<Rightarrow> string option" where
  "resolveUID ID appstate jar =
     (if truthyStr ID then ID
      else (case find (\<lambda>i. key i = ''i_user'' \<or> key i = ''c_user'') appstate of
              Some c \<Rightarrow> Some (val c)
            | None \<Rightarrow>
                (case find (\<lambda>c. key c = ''c_user'' \<or> key c = ''i_user'') jar of
                   Some c \<Rightarrow> Some (val c)
                 | None \<Rightarrow> None)))"

fun String_opt :: "string option \<Rightarrow> string" where
  "String_opt None = ''undefined''"
| "String_opt (Some u) = u"

section \<open>Checkpoint classifier\<close>

text \<open>\<open>resp?.request?.uri?.href?.includes(s)\<close>: false when the address is absent.\<close>

definition hrefIncludes :: "response \<Rightarrow> string \<Rightarrow> bool" where
  "hrefIncludes resp s = (case href resp of None \<Rightarrow> False | Some h \<Rightarrow> includes_str h s)"

definition checkpointURL :: string where
  "checkpointURL = ''https://www.facebook.com/checkpoint/''"

definition automationFlow :: string where
  "automationFlow = ''601051028565049''"

definition suspendedFlow :: string where
  "suspendedFlow = ''1501092823525282''"

definition lockedFlow :: string where
  "lockedFlow = ''828281030927956''"

definition dq :: string where
  "dq = [CHR 0x22]"

text \<open>
  The markers handed to \<open>utils.getFrom\<close>: \<open>["DTSGInitData",[],{"token":"\<close> up to
  \<open>","\<close>, \<open>jazoest=\<close> up to \<open>",\<close>, and \<open>["LSD",[],{"token":"\<close> up to \<open>"}\<close>.
\<close>

definition dtsgStart :: string where
  "dtsgStart = ''['' @ dq @ ''DTSGInitData'' @ dq @ '',[],{'' @ dq @ ''token'' @ dq @ '':'' @ dq"

definition dtsgEnd :: string where
  "dtsgEnd = dq @ '','' @ dq"

definition jazoestStart :: string where
  "jazoestStart = ''jazoest=''"

definition jazoestEnd :: string where
  "jazoestEnd = dq @ '',''"

definition lsdStart :: string where
  "lsdStart = ''['' @ dq @ ''LSD'' @ dq @ '',[],{'' @ dq @ ''token'' @ dq @ '':'' @ dq"

definition lsdEnd :: string where
  "lsdEnd = dq @ ''}''"

text \<open>
  The three body patterns, with \<open>dq\<close> for the double quote:
  \<open>"log_out_uri":"(.*?)","title":"(.*?)"\<close>, \<open>"reason_section_body":"(.*?)"\<close> and
  \<open>"is_unvetted_flow":true,"title":"(.*?)"\<close>.
\<close>

definition durationRx :: "rx list" where
  "durationRx =
     [Lit (dq @ ''log_out_uri'' @ dq @ '':'' @ dq), Lazy,
      Lit (dq @ '','' @ dq @ ''title'' @ dq @ '':'' @ dq), Lazy, Lit dq]"

definition reasonRx :: "rx list" where
  "reasonRx = [Lit (dq @ ''reason_section_body'' @ dq @ '':'' @ dq), Lazy, Lit dq]"

definition lockRx :: "rx list" where
  "lockRx =
     [Lit (dq @ ''is_unvetted_flow'' @ dq @ '':true,'' @ dq @ ''title'' @ dq @ '':'' @ dq),
      Lazy, Lit dq]"

definition boilerplate :: string where
  "boilerplate =
     ''your account, or activity on it, doesn'' @ [CHR 0x27]
       @ ''t follow our community standards on ''"

text \<open>\<open>r.charAt(0).toUpperCase() + r.slice(1)\<close>\<close>

fun capitalize :: "string \<Rightarrow> string" where
  "capitalize [] = []"
| "capitalize (c # cs) = toUpperChar c # cs"

definition shortOf :: "string \<Rightarrow> string" where
  "shortOf long = capitalize (replaceFirst boilerplate [] (toLowerCase long))"

text \<open>
  \<open>checkIfSuspended\<close> returns \<open>{suspended: true, suspendReasons}\<close>, here \<open>Some\<close> of the
  reasons, or \<open>undefined\<close>, here \<open>None\<close>. A group that matched the empty string is
  falsy and sets no field. The user id that the function resolves serves its log lines
  only, which are not modelled.
\<close>

definition checkIfSuspended :: "response \<Rightarrow> suspendReasons option" where
  "checkIfSuspended resp =
     (if hrefIncludes resp checkpointURL then
        if hrefIncludes resp suspendedFlow then
            (let daystoDisable = (case body resp of None \<Rightarrow> None | Some b \<Rightarrow> rxSearch durationRx b);
                 reasonDescription = (case body resp of None \<Rightarrow> None | Some b \<Rightarrow> rxSearch reasonRx b);
                 duration = (case daystoDisable of
                               Some [u, d] \<Rightarrow> if d \<noteq> [] then Some d else None
                             | _ \<Rightarrow> None);
                 long = (case reasonDescription of
                           Some [l] \<Rightarrow> if l \<noteq> [] then Some l else None
                         | _ \<Rightarrow> None)
             in Some \<lparr>durationInfo = duration, longReason = long,
                      shortReason = map_option shortOf long\<rparr>)
        else None
      else None)"

text \<open>
  \<open>checkIfLocked\<close> likewise; it reads \<open>resp.body.match\<close> without a guard, so that an
  absent body throws inside its \<open>try\<close>, is logged and gives \<open>undefined\<close>.
\<close>

definition checkIfLocked :: "response \<Rightarrow> lockedReasons option" where
  "checkIfLocked resp =
     (if hrefIncludes resp checkpointURL then
        if hrefIncludes resp lockedFlow then
          (case body resp of
             None \<Rightarrow> None
           | Some b \<Rightarrow>
               (case rxSearch lockRx b of
                  Some [t] \<Rightarrow> Some \<lparr>reason = (if t \<noteq> [] then Some t else None)\<rparr>
                | _ \<Rightarrow> Some \<lparr>reason = None\<rparr>))
        else None
      else None)"

text \<open>
  \<open>bypassAutoBehavior\<close>: on the automation-challenge flow it extracts the three tokens
  (an exception there is caught and the function returns \<open>undefined\<close>), raises
  \<open>behaviorDetected\<close> and posts the acknowledgement; otherwise it returns the response
  it was given.
\<close>

definition graphqlURL :: string where
  "graphqlURL = ''https://www.facebook.com/api/graphql/''"

definition bypassAutoBehavior ::
    "env \<Rightarrow> response \<Rightarrow> machine \<Rightarrow> (error + response option) \<times> machine" where
  "bypassAutoBehavior E resp m =
     (if hrefIncludes resp checkpointURL \<and> hrefIncludes resp automationFlow then
            (case getFrom E (body resp) dtsgStart dtsgEnd of
               Inl e \<Rightarrow> (Inr None, m)
             | Inr fb \<Rightarrow>
                 (case getFrom E (body resp) jazoestStart jazoestEnd of
                    Inl e \<Rightarrow> (Inr None, m)
                  | Inr jz \<Rightarrow>
                      (case getFrom E (body resp) lsdStart lsdEnd of
                         Inl e \<Rightarrow> (Inr None, m)
                       | Inr lsd \<Rightarrow>
                           (case fetch E (POST graphqlURL) (m\<lparr>behaviorDetected := True\<rparr>) of
                              (Inl e, m') \<Rightarrow> (Inl e, m')
                            | (Inr r, m') \<Rightarrow> (Inr (Some r), m')))))
      else (Inr (Some resp), m))"

section \<open>Token persistence\<close>

text \<open>
  The assignment \<open>existingData[UID] = pair\<close> on what \<open>JSON.parse\<close> returned.

  On an object, represented by the map of its own properties, the key \<open>__proto__\<close> is
  special: unless the object has an own property of that name, the assignment reaches
  the setter inherited from \<open>Object.prototype\<close>, replaces the prototype and creates no
  property, so that \<open>JSON.stringify\<close> writes the object as it was. Every other key is
  stored as an own property.
\<close>

definition objectAssign ::
    "(string \<Rightarrow> tokenPair option) \<Rightarrow> string \<Rightarrow> tokenPair \<Rightarrow> (string \<Rightarrow> tokenPair option)" where
  "objectAssign existingData k v =
     (if k = ''__proto__'' \<and> existingData k = None then existingData
      else existingData(k \<mapsto> v))"

text \<open>
  On an array, whose elements are pairs or \<open>null\<close>, a key that is an array index (a
  decimal numeral without a leading zero, below \<open>2^32 - 1\<close>) stores an element,
  after the array has been extended with holes, written as \<open>null\<close>; the key \<open>length\<close>
  throws; every other key becomes a property that \<open>JSON.stringify\<close> does not write.
  (The limit of the engine on the size of the written text is not modelled.)
\<close>

definition digitValue :: "char \<Rightarrow> nat option" where
  "digitValue c = map_of (zip ''0123456789'' [0, 1, 2, 3, 4, 5, 6, 7, 8, 9]) c"

fun decimalValue :: "string \<Rightarrow> nat \<Rightarrow> nat option" where
  "decimalValue [] acc = Some acc"
| "decimalValue (c # cs) acc =
     (case digitValue c of None \<Rightarrow> None | Some d \<Rightarrow> decimalValue cs (10 * acc + d))"

definition arrayIndex :: "string \<Rightarrow> nat option" where
  "arrayIndex k =
     (if k = [] \<or> (hd k = CHR ''0'' \<and> k \<noteq> ''0'') then None
      else (case decimalValue k 0 of
              None \<Rightarrow> None
            | Some n \<Rightarrow> if n < 4294967295 then Some n else None))"

definition arrayAssign ::
    "tokenPair option list \<Rightarrow> string \<Rightarrow> tokenPair \<Rightarrow> error + tokenPair option list" where
  "arrayAssign xs k v =
     (case arrayIndex k of
        Some i \<Rightarrow> Inr ((xs @ replicate (Suc i - length xs) None)[i := Some v])
      | None \<Rightarrow> if k = ''length'' then Inl (Error ''Invalid array length'') else Inr xs)"

text \<open>
  \<open>updateDTSG\<close>. Its \<open>catch\<close> block reads \<open>UID\<close>, which is declared with \<open>let\<close> inside
  the \<open>try\<close> block and is out of scope there, so every exception of the body leaves
  the function as a \<open>ReferenceError\<close>. The argument is \<open>None\<close> when the previous step
  returned \<open>undefined\<close>. An absent file starts from the empty object.
\<close>

definition uidOutOfScope :: error where
  "uidOutOfScope = ReferenceError ''UID is not defined''"

definition updateDTSG ::
    "env \<Rightarrow> response option \<Rightarrow> cookie list \<Rightarrow> string option \<Rightarrow> machine
       \<Rightarrow> (error + response) \<times> machine" where
  "updateDTSG E res appstate ID m =
     (let UID = resolveUID ID appstate (jarCookies E (length (requests m))) in
      case res of
        None \<Rightarrow> (Inl uidOutOfScope, m)
      | Some r \<Rightarrow>
          if \<not> truthyStr (body r) then (Inl uidOutOfScope, m)
          else
            (case getFrom E (body r) dtsgStart dtsgEnd of
               Inl e \<Rightarrow> (Inl uidOutOfScope, m)
             | Inr fb \<Rightarrow>
                 (case getFrom E (body r) jazoestStart jazoestEnd of
                    Inl e \<Rightarrow> (Inl uidOutOfScope, m)
                  | Inr jz \<Rightarrow>
                      if fb \<noteq> [] \<and> jz \<noteq> [] then
                        (case dtsgFile m of
                           NoFile \<Rightarrow>
                             (Inr r, m\<lparr>dtsgFile := Stored (objectAssign Map.empty (String_opt UID)
                                          \<lparr>fb_dtsg = fb, jazoest = jz\<rparr>)\<rparr>)
                         | BadFile \<Rightarrow> (Inl uidOutOfScope, m)
                         | Stored existingData \<Rightarrow>
                             (Inr r, m\<lparr>dtsgFile := Stored (objectAssign existingData (String_opt UID)
                                          \<lparr>fb_dtsg = fb, jazoest = jz\<rparr>)\<rparr>)
                         | StoredArray xs \<Rightarrow>
                             (case arrayAssign xs (String_opt UID) \<lparr>fb_dtsg = fb, jazoest = jz\<rparr> of
                                Inl e \<Rightarrow> (Inl uidOutOfScope, m)
                              | Inr ys \<Rightarrow> (Inr r, m\<lparr>dtsgFile := StoredArray ys\<rparr>)))
                      else (Inr r, m))))"

text \<open>
  Reading an entry of the parsed file back, \<open>fbDtsgData[userID]\<close> as in
  \<open>refreshAction\<close>, when the file holds an object: an own property, else a member
  inherited from \<open>Object.prototype\<close>, else \<open>undefined\<close>.
\<close>

datatype lookup = Entry tokenPair | Inherited | Missing

definition objectPrototypeNames :: "string list" where
  "objectPrototypeNames =
     [''constructor'', ''__defineGetter__'', ''__defineSetter__'', ''hasOwnProperty'',
      ''__lookupGetter__'', ''__lookupSetter__'', ''isPrototypeOf'', ''propertyIsEnumerable'',
      ''toString'', ''valueOf'', ''__proto__'', ''toLocaleString'']"

definition readEntry :: "(string \<Rightarrow> tokenPair option) \<Rightarrow> string \<Rightarrow> lookup" where
  "readEntry fbDtsgData userID =
     (case fbDtsgData userID of
        Some p \<Rightarrow> Entry p
      | None \<Rightarrow> if userID \<in> set objectPrototypeNames then Inherited else Missing)"

section \<open>The suspension claim in the words of the specification\<close>

text \<open>
  The short reason as the specification words it: the long reason with the fixed
  boilerplate prefix stripped and the first character capitalized.
\<close>

definition specShortReason :: "string \<Rightarrow> string" where
  "specShortReason long =
     capitalize (if prefix boilerplate long then drop (length boilerplate) long else long)"

section \<open>Configuration\<close>

text \<open>
  \<open>state.globalOptions\<close> is an object with string keys; \<open>delete\<close> removes a key. The
  options handed to \<open>setOptions\<close> are the entries of an object, in the order of
  \<open>Object.entries\<close>.
\<close>

definition defaultGlobalOptions :: "string \<Rightarrow> jsval option" where
  "defaultGlobalOptions =
     map_of
       [(''selfListen'', JBool False), (''selfListenEvent'', JBool False),
        (''listenEvents'', JBool True), (''listenTyping'', JBool False),
        (''updatePresence'', JBool False), (''forceLogin'', JBool False),
        (''autoMarkDelivery'', JBool False), (''autoMarkRead'', JBool True),
        (''autoReconnect'', JBool True), (''online'', JBool True),
        (''emitReady'', JBool False), (''randomUserAgent'', JBool False),
        (''refresh_dtsg'', JBool True)]"

text \<open>The keys whose \<open>case\<close> stores \<open>Boolean(value)\<close>.\<close>

definition booleanOptions :: "string list" where
  "booleanOptions =
     [''refresh_dtsg'', ''online'', ''selfListen'', ''listenEvents'', ''updatePresence'',
      ''forceLogin'', ''autoMarkDelivery'', ''autoMarkRead'', ''listenTyping'',
      ''autoReconnect'', ''emitReady'']"

text \<open>One turn of the loop of \<open>setOptions\<close>: the \<open>switch\<close> on the key.\<close>

definition setOption ::
    "env \<Rightarrow> string \<times> jsval \<Rightarrow> (string \<Rightarrow> jsval option) \<Rightarrow> (string \<Rightarrow> jsval option)" where
  "setOption E kv g =
     (case kv of (k, v) \<Rightarrow>
        if k \<in> set booleanOptions then g(k \<mapsto> JBool (truthy v))
        else if k = ''selfListenEvent'' \<or> k = ''userAgent'' then g(k \<mapsto> v)
        else if k = ''pageID'' then g(k \<mapsto> JStr (String_of v))
        else if k = ''proxy'' then (case v of JStr s \<Rightarrow> g(k \<mapsto> v) | _ \<Rightarrow> g(k := None))
        else if k = ''randomUserAgent'' then
          (if truthy v then (g(k \<mapsto> JBool True))(''userAgent'' \<mapsto> JStr (userAgent E))
           else g(k \<mapsto> JBool False))
        else if k = ''bypassRegion'' then
          (if truthy v then
             (case validateRegion v of
                Inr r \<Rightarrow> g(k \<mapsto> JStr (code r))
              | Inl e \<Rightarrow> g(k := None))
           else g(k := None))
        else g)"

definition setOptions :: "env \<Rightarrow> (string \<times> jsval) list \<Rightarrow> machine \<Rightarrow> machine" where
  "setOptions E options m =
     m\<lparr>globalOptions := foldl (\<lambda>g kv. setOption E kv g) (globalOptions m) options\<rparr>"

text \<open>\<open>options.k\<close>: \<open>undefined\<close> when the object has no such key.\<close>

definition optionValue :: "(string \<times> jsval) list \<Rightarrow> string \<Rightarrow> jsval" where
  "optionValue options k = (case map_of options k of None \<Rightarrow> JUndefined | Some v \<Rightarrow> v)"

section \<open>Session context and its setOptions\<close>

text \<open>
  The context that \<open>buildAPI\<close> creates. \<open>region\<close> and \<open>mqttEndpoint\<close> start out
  \<open>undefined\<close>, here \<open>None\<close>.
\<close>

record ctx =
  userID :: "string option"
  clientID :: string
  loggedIn :: bool
  access_token :: string
  mqttEndpoint :: "string option"
  region :: "string option"
  ctx_fb_dtsg :: "string option"

text \<open>\<open>value !== ctx.region\<close>\<close>

fun strictNeq :: "jsval \<Rightarrow> string option \<Rightarrow> bool" where
  "strictNeq (JStr s) r = (r \<noteq> Some s)"
| "strictNeq JUndefined r = (r \<noteq> None)"
| "strictNeq JNull r = True"
| "strictNeq (JBool b) r = True"

definition endpointURL :: "string \<Rightarrow> string option \<Rightarrow> string" where
  "endpointURL r uid = ''wss://edge-chat.facebook.com/chat?region='' @ r @ ''&sid='' @ String_opt uid"

text \<open>\<open>setOptions\<close> of the session handle.\<close>

definition api_setOptions ::
    "env \<Rightarrow> (string \<times> jsval) list \<Rightarrow> ctx \<times> machine \<Rightarrow> ctx \<times> machine" where
  "api_setOptions E options cm =
     (case cm of (c, m) \<Rightarrow>
        (let m' = setOptions E options m;
             v = optionValue options ''bypassRegion'';
             r = (if truthy v \<and> strictNeq v (region c) then
                    (case validateRegion v of
                       Inr regionObj \<Rightarrow> code regionObj
                     | Inl e \<Rightarrow> code (getRandomRegion (randomIndex E)))
                  else code (getRandomRegion (randomIndex E)))
         in (c\<lparr>region := Some r, mqttEndpoint := Some (endpointURL r (userID c))\<rparr>, m')))"

section \<open>Promise chains\<close>

text \<open>
  The login flow is a chain of promises over the network and the state. A step is a
  function of the machine that gives a value or a rejection together with the machine
  it leaves; \<open>thenF\<close> is \<open>.then\<close>: a rejection skips the handlers that follow, down to
  the final \<open>.catch\<close>.
\<close>

type_synonym 'a flow = "machine \<Rightarrow> (error + 'a) \<times> machine"

definition resolve :: "'a \<Rightarrow> 'a flow" where
  "resolve x m = (Inr x, m)"

definition reject :: "error \<Rightarrow> 'a flow" where
  "reject e m = (Inl e, m)"

definition thenF :: "'a flow \<Rightarrow> ('a \<Rightarrow> 'b flow) \<Rightarrow> 'b flow" where
  "thenF p f m = (case p m of (Inl e, m') \<Rightarrow> (Inl e, m') | (Inr x, m') \<Rightarrow> f x m')"

section \<open>Helpers of the login flow\<close>

definition rootURL :: string where
  "rootURL = ''https://www.facebook.com/''"

definition loginURL :: string where
  "loginURL = ''https://www.facebook.com/login/device-based/regular/login/?login_attempt=1''"

definition nextURL :: string where
  "nextURL = ''https://www.facebook.com/checkpoint/?next=https%3A%2F%2Fwww.facebook.com%2Fhome.php''"

definition homeURL :: string where
  "homeURL = ''https://www.facebook.com/home.php''"

definition backslash :: char where
  "backslash = CHR 0x5C"

text \<open>A regular expression applied to \<open>res.body\<close> reads an absent body as \<open>undefined\<close>.\<close>

definition bodyText :: "response \<Rightarrow> string" where
  "bodyText res = String_opt (body res)"

text \<open>The truthiness of \<open>state.globalOptions.k\<close>.\<close>

definition optionSet :: "machine \<Rightarrow> string \<Rightarrow> bool" where
  "optionSet m k = (case globalOptions m k of None \<Rightarrow> False | Some v \<Rightarrow> truthy v)"

text \<open>
  \<open>redirect\<close> follows
  \<open><meta http-equiv="refresh" content="0;url=([^"]+)[^>]+>\<close> once.
\<close>

definition refreshRx :: "rx list" where
  "refreshRx =
     [Lit (''<meta http-equiv='' @ dq @ ''refresh'' @ dq @ '' content='' @ dq @ ''0;url=''),
      NotChar1 (CHR 0x22), NotChar1 CHR ''>'', Lit ''>'']"

definition redirect :: "env \<Rightarrow> response \<Rightarrow> bool \<Rightarrow> response flow" where
  "redirect E res fastSwitch =
     (if fastSwitch then resolve res
      else (case rxSearch refreshRx (bodyText res) of
              Some (u # gs) \<Rightarrow> if u \<noteq> [] then fetch E (GET u) else resolve res
            | _ \<Rightarrow> resolve res))"

text \<open>\<open>JSON.stringify\<close> of a string.\<close>

definition hexDigits :: string where
  "hexDigits = ''0123456789abcdef''"

definition jsonEscape :: "char \<Rightarrow> string" where
  "jsonEscape c =
     (if c = CHR 0x22 then [backslash, CHR 0x22]
      else if c = backslash then [backslash, backslash]
      else if c = CHR 0x08 then [backslash, CHR ''b'']
      else if c = CHR 0x0C then [backslash, CHR ''f'']
      else if c = CHR 0x0A then [backslash, CHR ''n'']
      else if c = CHR 0x0D then [backslash, CHR ''r'']
      else if c = CHR 0x09 then [backslash, CHR ''t'']
      else if (of_char c :: nat) < 32 then
        [backslash, CHR ''u'', CHR ''0'', CHR ''0'',
         hexDigits ! ((of_char c :: nat) div 16), hexDigits ! ((of_char c :: nat) mod 16)]
      else [c])"

definition JSON_stringify :: "string \<Rightarrow> string" where
  "JSON_stringify s = dq @ concat (map jsonEscape s) @ dq"

text \<open>\<open>s.split(sep)\<close> for a separator of one or more characters.\<close>

function splitStr :: "string \<Rightarrow> string \<Rightarrow> string list" where
  "splitStr sep [] = [[]]"
| "splitStr sep (c # cs) =
     (if sep \<noteq> [] \<and> prefix sep (c # cs) then [] # splitStr sep (drop (length sep) (c # cs))
      else (case splitStr sep cs of p # ps \<Rightarrow> (c # p) # ps | [] \<Rightarrow> [[c]]))"
  by pat_completeness auto
termination
  by (relation "measure (\<lambda>(sep, s). length s)") (auto simp: neq_Nil_conv)

text \<open>
  \<open>checkAndFixErr\<close>: on the region-block marker it looks for a \<open>gfid\<close> in the
  stringified body and fetches the bypass address built from it.
\<close>

definition regionBypassURL :: string where
  "regionBypassURL =
     ''https://m.facebook.com/a/preferences.php?basic_site_devices=m_basic&uri=''
       @ ''https%3A%2F%2Fm.facebook.com%2Fhome.php'' @ ''&gfid=''"

definition checkAndFixErr :: "env \<Rightarrow> response \<Rightarrow> bool \<Rightarrow> response flow" where
  "checkAndFixErr E res fastSwitch =
     (if fastSwitch then resolve res
      else if includes_str (bodyText res) ''7431627028261359627'' then
        (case splitStr ''2Fhome.php&gfid='' (JSON_stringify (bodyText res)) of
           p # dtCheck # rest \<Rightarrow>
             if dtCheck = [] then resolve res
             else (let fid = hd (split backslash dtCheck) in
                   if fid = [] then resolve res
                   else fetch E (GET (regionBypassURL @ fid)))
         | _ \<Rightarrow> resolve res)
      else resolve res)"

text \<open>
  The reload step: unless \<open>OnAutoLoginProcess\<close> is set, a page without the load
  telemetry marker is fetched once more.
\<close>

definition reloadIfNeeded :: "env \<Rightarrow> response \<Rightarrow> response flow" where
  "reloadIfNeeded E res m =
     (if optionSet m ''OnAutoLoginProcess'' then resolve res m
      else if \<not> includes_str (bodyText res) ''MPageLoadClientMetrics'' then fetch E (GET rootURL) m
      else resolve res m)"

section \<open>Session context builder\<close>

text \<open>
  \<open>buildAPI\<close>: the token by \<open>DTSGInitialData.*?token":"(.*?)"\<close>, the user id from the
  jar, the two refusals, and the context. The session handle is the context together
  with the functions \<open>api_setOptions\<close> and \<open>getCookie\<close>; the loading of the feature
  modules and the scheduling of the token refresh are not modelled.
\<close>

definition dtsgInitialRx :: "rx list" where
  "dtsgInitialRx = [Lit ''DTSGInitialData'', Lazy, Lit (''token'' @ dq @ '':'' @ dq), Lazy, Lit dq]"

definition buildAPI :: "env \<Rightarrow> string option \<Rightarrow> machine \<Rightarrow> error + ctx" where
  "buildAPI E html m =
     (case html of
        None \<Rightarrow> Inl TypeError
      | Some h \<Rightarrow>
          (let token = (case rxSearch dtsgInitialRx h of Some [g, t] \<Rightarrow> Some t | _ \<Rightarrow> None);
               cookies = jarCookies E (length (requests m));
               primary_profile = find (\<lambda>v. key v = ''c_user'') cookies;
               secondary_profile = find (\<lambda>v. key v = ''i_user'') cookies
           in if primary_profile = None \<and> secondary_profile = None then
                Inl (Error ''Error retrieving userID. Try logging in with a browser to verify.'')
              else if includes_str h ''/checkpoint/block/?next'' then
                Inl (Error ''Checkpoint detected.'')
              else
                Inr \<lparr>userID = (if truthyStr (map_option val secondary_profile)
                                then map_option val secondary_profile
                                else map_option val primary_profile),
                     clientID = randomHex E, loggedIn = True, access_token = ''NONE'',
                     mqttEndpoint = None, region = None, ctx_fb_dtsg = token\<rparr>))"

section \<open>Credential submission and the two-factor flow\<close>

text \<open>
  \<open>submit2FACode\<close>: the code, then the save-device form, then the test of the second
  response, then the root page.
\<close>

definition submit2FACode :: "env \<Rightarrow> response flow" where
  "submit2FACode E =
     thenF (fetch E (POST nextURL)) (\<lambda>res.
     thenF (fetch E (POST nextURL)) (\<lambda>secondRes.
       if \<not> truthyStr (headers_location secondRes)
          \<and> (case headers_set_cookie secondRes of
                Some (c0 # cs) \<Rightarrow> includes_str c0 ''checkpoint''
              | _ \<Rightarrow> False)
       then reject (Error ''Failed to verify 2FA code.'')
       else fetch E (GET rootURL)))"

text \<open>\<open>handle2FA\<close>: the checkpoint page, and the prompt when it asks for a code.\<close>

definition handle2FA :: "env \<Rightarrow> string \<Rightarrow> response flow" where
  "handle2FA E loc =
     thenF (fetch E (GET loc)) (\<lambda>res.
       case body res of
         None \<Rightarrow> reject TypeError
       | Some html \<Rightarrow>
           if includes_str html ''checkpoint/?next'' then
             (case promptCode E of
                Inl e \<Rightarrow> reject e
              | Inr c \<Rightarrow> submit2FACode E)
           else resolve res)"

text \<open>
  \<open>makeLogin\<close>, from the response of the root page on: the form (whose content is not
  modelled, but for the exceptions of its extraction), the submission, and the test of
  the redirect location of its response.
\<close>

definition loginLsdEnd :: string where
  "loginLsdEnd = dq @ '']''"

definition makeLogin :: "env \<Rightarrow> response \<Rightarrow> response flow" where
  "makeLogin E res =
     (case getFrom E (body res) lsdStart loginLsdEnd of
        Inl e \<Rightarrow> reject e
      | Inr lsd \<Rightarrow>
          (case body res of
             None \<Rightarrow> reject TypeError
           | Some html \<Rightarrow>
               (case jsCookies E html of
                  Inl e \<Rightarrow> reject e
                | Inr u \<Rightarrow>
                    thenF (fetch E (POST loginURL)) (\<lambda>resData.
                      if \<not> truthyStr (headers_location resData) then
                        reject (Error ''Invalid credentials.'')
                      else if includes_str (the (headers_location resData)) checkpointURL then
                        handle2FA E (the (headers_location resData))
                      else fetch E (GET rootURL)))))"

section \<open>Credential normalizer\<close>

text \<open>
  What the caller hands to \<open>login\<close>: an object with the optional properties
  \<open>appState\<close>, \<open>email\<close> and \<open>password\<close>; a value that is not an object is \<open>None\<close>.
\<close>

record loginData =
  ld_appState :: "appStateInput option"
  ld_email :: jsval
  ld_password :: jsval

record credentials =
  cred_appState :: "cookie list option"
  cred_email :: "string option"
  cred_password :: "string option"

definition normalizeLoginCredentials :: "int \<Rightarrow> loginData option \<Rightarrow> error + credentials" where
  "normalizeLoginCredentials now loginData =
     (case loginData of
        None \<Rightarrow> Inl (Error ''Invalid loginData: must be an object'')
      | Some d \<Rightarrow>
          if truthyAppState (ld_appState d) then
            (case normalizeAppState now (ld_appState d) of
               Inl e \<Rightarrow> Inl e
             | Inr cs \<Rightarrow> Inr \<lparr>cred_appState = Some cs, cred_email = None, cred_password = None\<rparr>)
          else if truthy (ld_email d) \<and> truthy (ld_password d) then
            (case (ld_email d, ld_password d) of
               (JStr email, JStr password) \<Rightarrow>
                 Inr \<lparr>cred_appState = None, cred_email = Some (trim email),
                      cred_password = Some password\<rparr>
             | _ \<Rightarrow> Inl (Error ''Invalid email or password: must be strings''))
          else Inl (Error ''Invalid credentials: provide appState, email/password''))"

section \<open>Login orchestrator\<close>

text \<open>\<open>credentials.appState || []\<close>\<close>

definition appStateOrEmpty :: "credentials \<Rightarrow> cookie list" where
  "appStateOrEmpty credentials = (case cred_appState credentials of None \<Rightarrow> [] | Some cs \<Rightarrow> cs)"

text \<open>
  The first promise of \<open>loginHelper\<close>: the root page for a non-empty stored session
  (whose cookies go into the jar first), the root page and the submission for an email
  and a password, and otherwise the exception \<open>Unsupported credential type\<close>, thrown
  before any request.
\<close>

definition firstPromise :: "env \<Rightarrow> credentials \<Rightarrow> response flow" where
  "firstPromise E credentials =
     (if (case cred_appState credentials of None \<Rightarrow> False | Some cs \<Rightarrow> cs \<noteq> []) then
        fetch E (GET rootURL)
      else if truthyStr (cred_email credentials) \<and> truthyStr (cred_password credentials) then
        thenF (fetch E (GET rootURL)) (makeLogin E)
      else reject (Error ''Unsupported credential type''))"

text \<open>The navigation to the inbox of a page, when \<open>pageID\<close> is configured.\<close>

definition pageReplaceStart :: string where
  "pageReplaceStart =
     ''window.location.replace('' @ dq @ ''https:'' @ [backslash] @ ''/'' @ [backslash]
       @ ''/www.facebook.com'' @ [backslash]"

definition pageReplaceEnd :: string where
  "pageReplaceEnd = dq @ '');''"

definition pageNavigation :: "env \<Rightarrow> jsval \<Rightarrow> response flow" where
  "pageNavigation E pageID =
     thenF (fetch E (GET (''https://www.facebook.com/'' @ String_of pageID
                          @ ''/messages/?section=messages&subsection=inbox''))) (\<lambda>resData.
       case getFrom E (body resData) pageReplaceStart pageReplaceEnd of
         Inl e \<Rightarrow> reject e
       | Inr found \<Rightarrow>
           (let url = concat (split backslash found) in
            fetch E (GET (''https://www.facebook.com'' @ butlast url))))"

text \<open>
  \<open>mainPromise\<close> as it stands before the last handler is attached: the chain from the
  first promise to the construction of the context and, when a page is configured, the
  navigation to it. Its value is the final response together with the session handle.
\<close>

definition mainPromise :: "env \<Rightarrow> credentials \<Rightarrow> (response \<times> ctx) flow" where
  "mainPromise E credentials m0 =
     thenF (firstPromise E credentials) (\<lambda>res.
     thenF (redirect E res False) (\<lambda>res.
     thenF (checkAndFixErr E res False) (\<lambda>res.
     thenF (reloadIfNeeded E res) (\<lambda>res.
     thenF (bypassAutoBehavior E res) (\<lambda>res.
     thenF (updateDTSG E res (appStateOrEmpty credentials) None) (\<lambda>res.
     thenF (fetch E (GET homeURL)) (\<lambda>res.
     thenF (\<lambda>m. redirect E res (optionSet m ''OnAutoLoginProcess'') m) (\<lambda>res.
     thenF (\<lambda>m. checkAndFixErr E res (optionSet m ''OnAutoLoginProcess'') m) (\<lambda>res.
     thenF (\<lambda>m. (case buildAPI E (body res) m of
                    Inl e \<Rightarrow> reject e m
                  | Inr api \<Rightarrow> resolve (res, api) m)) (\<lambda>(res, api).
       if optionSet m0 ''pageID'' then
         thenF (pageNavigation E (the (globalOptions m0 ''pageID''))) (\<lambda>res. resolve (res, api))
       else resolve (res, api))))))))))) m0"

text \<open>
  \<open>loginHelper\<close>: the last handler runs the lock check and then the suspension check on
  the final response and throws what they return; the \<open>.catch\<close> hands every rejection
  to the callback. The result is what the callback receives.
\<close>

definition finalCheck :: "response \<times> ctx \<Rightarrow> ctx flow" where
  "finalCheck ra =
     (case ra of (res, api) \<Rightarrow>
        (case checkIfLocked res of
           Some detectLocked \<Rightarrow> reject (Locked detectLocked)
         | None \<Rightarrow>
             (case checkIfSuspended res of
                Some detectSuspension \<Rightarrow> reject (Suspended detectSuspension)
              | None \<Rightarrow> resolve api)))"

definition loginHelper :: "env \<Rightarrow> credentials \<Rightarrow> ctx flow" where
  "loginHelper E credentials = thenF (mainPromise E credentials) finalCheck"

text \<open>
  \<open>login\<close> without a callback: the options are reset and set, the credentials
  normalized, and the promise settles with what \<open>loginHelper\<close> hands over.
\<close>

definition login :: "env \<Rightarrow> loginData option \<Rightarrow> (string \<times> jsval) list \<Rightarrow> ctx flow" where
  "login E loginData options m =
     (let m1 = setOptions E options (m\<lparr>globalOptions := defaultGlobalOptions\<rparr>) in
      case normalizeLoginCredentials (dateNow E) loginData of
        Inl e \<Rightarrow> (Inl e, m1)
      | Inr credentials \<Rightarrow> loginHelper E credentials m1)"

section \<open>Sample inputs\<close>

text \<open>
  The domain and key of a cookie, as a pair; two entries of a stored session that repeat
  a key; the cookies of a jar.
\<close>

definition domainKey :: "cookie \<Rightarrow> string \<times> string" where
  "domainKey c = (domain c, key c)"

definition entryA :: rawCookie where
  "entryA = \<lparr>raw_key = Some ''xs'', raw_name = None, raw_value = Some ''first'',
             raw_domain = None, raw_path = None, raw_expires = None\<rparr>"

definition entryB :: rawCookie where
  "entryB = \<lparr>raw_key = Some ''xs'', raw_name = None, raw_value = Some ''second'',
             raw_domain = None, raw_path = None, raw_expires = Some 5\<rparr>"

definition jarExample :: "rawCookie list" where
  "jarExample =
     [\<lparr>raw_key = Some ''c_user'', raw_name = None, raw_value = Some ''100001'',
       raw_domain = Some ''facebook.com'', raw_path = Some ''/'', raw_expires = None\<rparr>,
      \<lparr>raw_key = Some ''presence'', raw_name = None, raw_value = Some ''p1'',
       raw_domain = Some ''facebook.com'', raw_path = Some ''/'', raw_expires = None\<rparr>,
      \<lparr>raw_key = Some ''xs'', raw_name = None, raw_value = Some ''abc'',
       raw_domain = Some ''facebook.com'', raw_path = Some ''/'', raw_expires = None\<rparr>]"

text \<open>A suspended-checkpoint response, and a response of the home page.\<close>

definition suspendedLong :: string where
  "suspendedLong = boilerplate @ ''account Integrity''"

definition suspendedBody :: string where
  "suspendedBody =
     ''{'' @ dq @ ''log_out_uri'' @ dq @ '':'' @ dq @ ''/logout'' @ dq @ '','' @ dq @ ''title''
       @ dq @ '':'' @ dq @ ''30 days left'' @ dq @ '','' @ dq @ ''reason_section_body'' @ dq
       @ '':'' @ dq @ suspendedLong @ dq @ ''}''"

definition suspendedResp :: response where
  "suspendedResp =
     \<lparr>body = Some suspendedBody,
      href = Some ''https://www.facebook.com/checkpoint/1501092823525282/?next=home'',
      headers_location = None, headers_set_cookie = None\<rparr>"

definition homeResp :: response where
  "homeResp =
     \<lparr>body = Some (dq @ ''reason_section_body'' @ dq @ '':'' @ dq @ ''spam'' @ dq),
      href = Some ''https://www.facebook.com/home.php'',
      headers_location = None, headers_set_cookie = None\<rparr>"

text \<open>An environment, a machine before any request, and a context whose region is PRN.\<close>

definition envExample :: env where
  "envExample =
     \<lparr>net = (\<lambda>n. Inr homeResp), jarCookies = (\<lambda>n. []),
      getFrom = (\<lambda>b s e. Inr ''token''), jsCookies = (\<lambda>h. Inr ()),
      dateNow = 1000, randomIndex = 1, randomHex = ''1a2b3c'',
      userAgent = ''Mozilla/5.0'', promptCode = Inr ''123456''\<rparr>"

definition machine0 :: machine where
  "machine0 =
     \<lparr>globalOptions = defaultGlobalOptions, behaviorDetected = False, requests = [],
      dtsgFile = NoFile\<rparr>"

definition ctxExample :: ctx where
  "ctxExample =
     \<lparr>userID = Some ''100001'', clientID = ''1a2b3c'', loggedIn = True, access_token = ''NONE'',
      mqttEndpoint = Some (endpointURL ''PRN'' (Some ''100001'')), region = Some ''PRN'',
      ctx_fb_dtsg = None\<rparr>"



text \<open>
  Login runs: a stored session with one cookie, an email and a password, the root page
  with and without the load telemetry marker, a locked checkpoint page, a submission
  response without a redirect location, and the environments that serve them.
\<close>

definition sessionCredentials :: credentials where
  "sessionCredentials =
     \<lparr>cred_appState = Some [\<lparr>key = ''c_user'', val = ''100001'', domain = ''.facebook.com'',
                              path = ''/'', expires = 5\<rparr>],
      cred_email = None, cred_password = None\<rparr>"

definition passwordCredentials :: credentials where
  "passwordCredentials =
     \<lparr>cred_appState = None, cred_email = Some ''user@example.com'',
      cred_password = Some ''secret''\<rparr>"

definition loadedResp :: response where
  "loadedResp =
     \<lparr>body = Some ''<html>MPageLoadClientMetrics</html>'',
      href = Some ''https://www.facebook.com/'',
      headers_location = None, headers_set_cookie = None\<rparr>"

definition lockedResp :: response where
  "lockedResp =
     \<lparr>body = Some (''{'' @ dq @ ''is_unvetted_flow'' @ dq @ '':true,'' @ dq @ ''title'' @ dq
                     @ '':'' @ dq @ ''Your account is locked'' @ dq @ ''}''),
      href = Some ''https://www.facebook.com/checkpoint/828281030927956/?next=home'',
      headers_location = None, headers_set_cookie = None\<rparr>"

definition rejectedResp :: response where
  "rejectedResp =
     \<lparr>body = Some ''<html>login</html>'',
      href = Some ''https://www.facebook.com/login/device-based/regular/login/?login_attempt=1'',
      headers_location = None, headers_set_cookie = None\<rparr>"

definition envFinal :: "response \<Rightarrow> env" where
  "envFinal final =
     \<lparr>net = (\<lambda>n. if n = 0 then Inr loadedResp else Inr final),
      jarCookies = (\<lambda>n. [\<lparr>key = ''c_user'', val = ''100001'', domain = ''.facebook.com'',
                           path = ''/'', expires = 5\<rparr>]),
      getFrom = (\<lambda>b s e. Inr ''token''), jsCookies = (\<lambda>h. Inr ()),
      dateNow = 1000, randomIndex = 1, randomHex = ''1a2b3c'',
      userAgent = ''Mozilla/5.0'', promptCode = Inr ''123456''\<rparr>"

definition envRejected :: env where
  "envRejected =
     \<lparr>net = (\<lambda>n. if n = 0 then Inr loadedResp else Inr rejectedResp),
      jarCookies = (\<lambda>n. []),
      getFrom = (\<lambda>b s e. Inr ''token''), jsCookies = (\<lambda>h. Inr ()),
      dateNow = 1000, randomIndex = 1, randomHex = ''1a2b3c'',
      userAgent = ''Mozilla/5.0'', promptCode = Inr ''123456''\<rparr>"

definition emptySession :: loginData where
  "emptySession = \<lparr>ld_appState = Some (AppArray []), ld_email = JUndefined, ld_password = JUndefined\<rparr>"

definition handleExample :: ctx where
  "handleExample =
     \<lparr>userID = Some ''100001'', clientID = ''1a2b3c'', loggedIn = True, access_token = ''NONE'',
      mqttEndpoint = None, region = None, ctx_fb_dtsg = None\<rparr>"

section \<open>Properties of the region selector\<close>

lemma codes_upper: "\<forall>r \<in> set defaultRegions. toUpperCase (code r) = code r"
  by (simp add: defaultRegions_def toUpperCase_def toUpperChar_def lowerLetters_def upperLetters_def)

lemma supportedRegions_eq: "supportedRegions = ''PRN, VLL, ASH, DFW, LLA, FRA, SIN, NRT, HKG, SYD, PNB''"
  by (simp add: supportedRegions_def defaultRegions_def)

lemma find_upper: "find (\<lambda>r. toUpperCase (code r) = c) defaultRegions = find (\<lambda>r. code r = c) defaultRegions"
  using codes_upper by (intro find_cong) auto

lemma distinct_codes: "distinct (map code defaultRegions)"
  by (simp add: defaultRegions_def)

lemma find_distinct: "distinct (map f xs) \<Longrightarrow> x \<in> set xs \<Longrightarrow> find (\<lambda>y. f y = f x) xs = Some x"
  by (induction xs) (auto simp: image_iff)

lemma find_none: "c \<notin> set (map code defaultRegions) \<Longrightarrow> find (\<lambda>r'. code r' = c) defaultRegions = None"
  by (auto simp add: find_None_iff)
  
lemma trim_Nil: "trim [] = []" by (simp add: trim_def)


lemma validateRegion_match:
  assumes "r \<in> set defaultRegions" and "toUpperCase (trim s) = toUpperCase (code r)"
  shows "validateRegion (JStr s) = Inr r"
proof -
  from assms(1) have up: "toUpperCase (code r) = code r" using codes_upper by blast
  have ne: "code r \<noteq> []" using assms(1) by (auto simp: defaultRegions_def)
  with assms(2) up have t: "trim s \<noteq> []" by (auto simp: toUpperCase_def)
  then have s: "s \<noteq> []" by (auto simp: trim_Nil)
  have "find (\<lambda>r'. toUpperCase (code r') = toUpperCase (trim s)) defaultRegions = Some r"
    using find_distinct [OF distinct_codes assms(1)] by (simp add: find_upper assms(2) up)
  with t s show ?thesis by (simp add: validateRegion_def)
qed

lemma validateRegion_Inr:
  assumes "validateRegion v = Inr r"
  shows "r \<in> set defaultRegions"
proof -
  from assms obtain c where "find (\<lambda>r'. toUpperCase (code r') = c) defaultRegions = Some r"
    by (auto simp: validateRegion_def Let_def split: jsval.splits if_splits option.splits)
  then show ?thesis by (auto simp: find_Some_iff)
qed

lemma validateRegion_unknown:
  assumes "toUpperCase (trim s) \<notin> set (map code defaultRegions)"
  shows "\<exists>msg. validateRegion (JStr s) = Inl (Error msg) \<and>
           suffix ''Supported regions: PRN, VLL, ASH, DFW, LLA, FRA, SIN, NRT, HKG, SYD, PNB'' msg"
proof -
  have "find (\<lambda>r'. toUpperCase (code r') = toUpperCase (trim s)) defaultRegions = None"
    using find_none [OF assms] by (simp add: find_upper)
  then show ?thesis
    by (auto simp: validateRegion_def supportedRegions_eq suffix_def)
qed

lemma validateRegion_v0_agrees:
  "validateRegion_v0 v = (case validateRegion v of Inl e \<Rightarrow> None | Inr r \<Rightarrow> Some r)"
proof (cases v)
  case (JStr s)
  show ?thesis
  proof (cases "s = [] \<or> trim s = []")
    case True
    have "find (\<lambda>r. code r = []) defaultRegions = None"
      by (rule find_none) (simp add: defaultRegions_def)
    with True JStr show ?thesis
      by (auto simp: validateRegion_v0_def validateRegion_def toUpperCase_def)
  next
    case False
    with JStr show ?thesis
      by (simp add: validateRegion_v0_def validateRegion_def find_upper Let_def
          split: option.splits)
  qed
qed (simp_all add: validateRegion_v0_def validateRegion_def)

text \<open>
  C6, as the source has it. A string that is a catalog code up to letter case and
  surrounding white space validates to that catalog entry; validating the code of a
  returned region returns the same region; a string whose trimmed, upper-cased form is not
  a catalog code is refused with an error whose message ends with the list of the eleven
  supported codes.
\<close>

theorem validateRegion_catalog:
  "(r \<in> set defaultRegions \<and> toUpperCase (trim s) = toUpperCase (code r)
      \<longrightarrow> validateRegion (JStr s) = Inr r)
   \<and> (validateRegion v = Inr r' \<longrightarrow> validateRegion (JStr (code r')) = Inr r')
   \<and> (toUpperCase (trim t) \<notin> set (map code defaultRegions)
      \<longrightarrow> (\<exists>msg. validateRegion (JStr t) = Inl (Error msg) \<and>
            suffix ''Supported regions: PRN, VLL, ASH, DFW, LLA, FRA, SIN, NRT, HKG, SYD, PNB'' msg))"
proof (intro conjI impI)
  assume "r \<in> set defaultRegions \<and> toUpperCase (trim s) = toUpperCase (code r)"
  then show "validateRegion (JStr s) = Inr r" by (simp add: validateRegion_match)
next
  assume "validateRegion v = Inr r'"
  then have "r' \<in> set defaultRegions" by (rule validateRegion_Inr)
  moreover from this have "toUpperCase (trim (code r')) = toUpperCase (code r')"
    by (auto simp: defaultRegions_def trim_def isWhiteSpace_def)
  ultimately show "validateRegion (JStr (code r')) = Inr r'" by (rule validateRegion_match)
next
  assume "toUpperCase (trim t) \<notin> set (map code defaultRegions)"
  then show "\<exists>msg. validateRegion (JStr t) = Inl (Error msg) \<and>
            suffix ''Supported regions: PRN, VLL, ASH, DFW, LLA, FRA, SIN, NRT, HKG, SYD, PNB'' msg"
    by (rule validateRegion_unknown)
qed

theorem validateRegion_catalog_witness:
  "validateRegion (JStr '' sin '') = Inr \<lparr>code = ''SIN'', name = ''Singapore'', location = ''Singapore''\<rparr>
   \<and> validateRegion (JStr ''hkg'') = Inr \<lparr>code = ''HKG'', name = ''Hong Kong'', location = ''Hong Kong''\<rparr>
   \<and> validateRegion (JStr ''HKG'') = Inr \<lparr>code = ''HKG'', name = ''Hong Kong'', location = ''Hong Kong''\<rparr>
   \<and> (\<exists>msg. validateRegion (JStr ''XYZ'') = Inl (Error msg) \<and>
            suffix ''Supported regions: PRN, VLL, ASH, DFW, LLA, FRA, SIN, NRT, HKG, SYD, PNB'' msg)"
proof -
  let ?hkg = "\<lparr>code = ''HKG'', name = ''Hong Kong'', location = ''Hong Kong''\<rparr>"
  have v: "validateRegion (JStr ''hkg'') = Inr ?hkg"
    by (simp add: validateRegion_def defaultRegions_def toUpperCase_def toUpperChar_def lowerLetters_def upperLetters_def trim_def isWhiteSpace_def)
  show ?thesis
    using validateRegion_catalog [of "\<lparr>code = ''SIN'', name = ''Singapore'', location = ''Singapore''\<rparr>"
       "'' sin ''" "JStr ''hkg''" ?hkg "''XYZ''"] v
    by (simp add: defaultRegions_def toUpperCase_def toUpperChar_def lowerLetters_def
        upperLetters_def trim_def isWhiteSpace_def)
qed

text \<open>
  The claim as written speaks of every string that is not in the catalog. The padded
  string \<open>'' PRN''\<close> is not a catalog code, with or without regard to letter case, and
  yet it validates, because \<open>validateRegion\<close> trims its argument first.
\<close>

theorem validateRegion_padded_counterexample:
  "validateRegion (JStr '' PRN'')
     = Inr \<lparr>code = ''PRN'', name = ''Pacific Northwest Region'', location = ''Pacific Northwest''\<rparr>
   \<and> toUpperCase '' PRN'' \<notin> set (map toUpperCase (map code defaultRegions))"
  by (simp add: validateRegion_def defaultRegions_def toUpperCase_def toUpperChar_def lowerLetters_def upperLetters_def trim_def isWhiteSpace_def)

section \<open>Properties of stored-session normalization\<close>

lemma mapE_Inr:
  "mapE f xs = Inr ys \<Longrightarrow> length ys = length xs \<and> (\<forall>i<length xs. f (xs ! i) = Inr (ys ! i))"
proof (induction xs arbitrary: ys)
  case Nil
  then show ?case by simp
next
  case (Cons x xs)
  from Cons.prems obtain y ys' where y: "f x = Inr y" and ys': "mapE f xs = Inr ys'" and e: "ys = y # ys'"
    by (auto split: sum.splits)
  from Cons.IH [OF ys'] have ih: "length ys' = length xs" "\<forall>i<length xs. f (xs ! i) = Inr (ys' ! i)"
    by auto
  show ?case
  proof (intro conjI allI impI)
    show "length ys = length (x # xs)" using ih e by simp
  next
    fix i assume "i < length (x # xs)"
    then show "f ((x # xs) ! i) = Inr (ys ! i)" using y e ih by (cases i) auto
  qed
qed

lemma mapE_iff: "(\<exists>ys. mapE f xs = Inr ys) \<longleftrightarrow> (\<forall>x \<in> set xs. \<exists>y. f x = Inr y)"
  by (induction xs) (auto split: sum.splits)

lemma cookieOfEntry_fields:
  "cookieOfEntry now r = Inr c \<Longrightarrow>
     key c = trim (the (if truthyStr (raw_key r) then raw_key r else raw_name r))
     \<and> val c = trim (the (raw_value r))
     \<and> domain c = (if truthyStr (raw_domain r) then the (raw_domain r) else ''.facebook.com'')
     \<and> path c = (if truthyStr (raw_path r) then the (raw_path r) else ''/'')
     \<and> expires c = (if truthyNum (raw_expires r) then the (raw_expires r) else now + oneYear)"
  by (auto simp: cookieOfEntry_def Let_def split: if_splits)

lemma cookieOfEntry_ok_iff:
  "(\<exists>c. cookieOfEntry now r = Inr c)
     \<longleftrightarrow> truthyStr (raw_value r) \<and> (truthyStr (raw_key r) \<or> truthyStr (raw_name r))"
  by (auto simp: cookieOfEntry_def Let_def)

lemma cookieOfPiece_fields:
  "cookieOfPiece now p = Inr c \<Longrightarrow>
     key c = trim (hd (split CHR ''='' p)) \<and> val c = trim (hd (tl (split CHR ''='' p)))
     \<and> domain c = ''.facebook.com'' \<and> path c = ''/'' \<and> expires c = now + oneYear"
  by (auto simp: cookieOfPiece_def split: list.splits if_splits)

lemma cookieOfPiece_ok_iff:
  "(\<exists>c. cookieOfPiece now p = Inr c)
     \<longleftrightarrow> (case split CHR ''='' p of k # v # rest \<Rightarrow> k \<noteq> [] \<and> v \<noteq> [] | _ \<Rightarrow> False)"
  by (auto simp: cookieOfPiece_def split: list.splits)

lemma normalize_string_mapE:
  "normalizeAppState now (Some (AppString s)) = Inr cs
     \<longleftrightarrow> mapE (cookieOfPiece now) (filter (\<lambda>c. trim c \<noteq> []) (split CHR '';'' s)) = Inr cs"
  by (cases "s = []") (auto simp: trim_def split: sum.splits)

text \<open>
  C5, as the source has it. A stored session is normalized entry by entry, and
  entries that repeat a key are all kept. An array is valid exactly when every entry has
  a non-empty value and a non-empty key or name; it gives one cookie per entry, in the
  order of the array, each the normalization of its own entry: the trimmed key (or
  name) and value, and as expiry the entry's own when that is present and non-zero and
  one year after \<open>now\<close> otherwise. A delimited string is valid exactly when each of
  its non-blank pieces has a non-empty first and second part around \<open>=\<close>; it gives one
  cookie per non-blank piece, in the order of the string, each the normalization of its
  own piece: the two parts trimmed, the default domain and path, and an expiry one year
  after \<open>now\<close>. A wrapped object gives what its \<open>cookies\<close> give when they are truthy
  and is refused otherwise.
\<close>

theorem normalizeAppState_entries:
  "(normalizeAppState now (Some (AppArray rs)) = Inr cs \<longrightarrow>
      length cs = length rs \<and>
      (\<forall>i<length rs. cookieOfEntry now (rs ! i) = Inr (cs ! i) \<and>
         key (cs ! i) = trim (the (if truthyStr (raw_key (rs ! i)) then raw_key (rs ! i)
                                   else raw_name (rs ! i))) \<and>
         val (cs ! i) = trim (the (raw_value (rs ! i))) \<and>
         expires (cs ! i) = (if truthyNum (raw_expires (rs ! i)) then the (raw_expires (rs ! i))
                             else now + oneYear)))
   \<and> ((\<exists>ok. normalizeAppState now (Some (AppArray rs)) = Inr ok) \<longleftrightarrow>
        (\<forall>r \<in> set rs. truthyStr (raw_value r) \<and> (truthyStr (raw_key r) \<or> truthyStr (raw_name r))))
   \<and> (normalizeAppState now (Some (AppString s)) = Inr cs' \<longrightarrow>
      (let ps = filter (\<lambda>c. trim c \<noteq> []) (split CHR '';'' s) in
       length cs' = length ps \<and>
       (\<forall>i<length ps. cookieOfPiece now (ps ! i) = Inr (cs' ! i) \<and>
          key (cs' ! i) = trim (hd (split CHR ''='' (ps ! i))) \<and>
          val (cs' ! i) = trim (hd (tl (split CHR ''='' (ps ! i)))) \<and>
          domain (cs' ! i) = ''.facebook.com'' \<and> path (cs' ! i) = ''/'' \<and>
          expires (cs' ! i) = now + oneYear)) \<and>
      length cs' = length (filter (\<lambda>c. trim c \<noteq> []) (split CHR '';'' s)) \<and>
      (\<forall>c \<in> set cs'. expires c = now + oneYear))
   \<and> ((\<exists>ok. normalizeAppState now (Some (AppString s)) = Inr ok) \<longleftrightarrow>
        (\<forall>p \<in> set (filter (\<lambda>c. trim c \<noteq> []) (split CHR '';'' s)).
           case split CHR ''='' p of k # v # rest \<Rightarrow> k \<noteq> [] \<and> v \<noteq> [] | _ \<Rightarrow> False))
   \<and> (normalizeAppState now (Some (AppObject (Some inner))) = Inr cs'' \<longrightarrow>
      normalizeAppState now (Some inner) = Inr cs'')
   \<and> (truthyAppState wrapped \<longrightarrow>
        normalizeAppState now (Some (AppObject wrapped)) = normalizeAppState now wrapped)
   \<and> (\<not> truthyAppState wrapped \<longrightarrow>
        normalizeAppState now (Some (AppObject wrapped)) = Inl (Error ''Unsupported appState format''))"
proof (intro conjI impI)
  assume a: "normalizeAppState now (Some (AppArray rs)) = Inr cs"
  then have m: "mapE (cookieOfEntry now) rs = Inr cs" by simp
  from mapE_Inr [OF m] show "length cs = length rs" by simp
  from mapE_Inr [OF m] show "\<forall>i<length rs. cookieOfEntry now (rs ! i) = Inr (cs ! i) \<and>
         key (cs ! i) = trim (the (if truthyStr (raw_key (rs ! i)) then raw_key (rs ! i)
                                   else raw_name (rs ! i))) \<and>
         val (cs ! i) = trim (the (raw_value (rs ! i))) \<and>
         expires (cs ! i) = (if truthyNum (raw_expires (rs ! i)) then the (raw_expires (rs ! i))
                             else now + oneYear)"
    using cookieOfEntry_fields by blast
next
  show "(\<exists>ok. normalizeAppState now (Some (AppArray rs)) = Inr ok) \<longleftrightarrow>
        (\<forall>r \<in> set rs. truthyStr (raw_value r) \<and> (truthyStr (raw_key r) \<or> truthyStr (raw_name r)))"
    by (simp add: mapE_iff cookieOfEntry_ok_iff)
next
  assume a: "normalizeAppState now (Some (AppString s)) = Inr cs'"
  let ?ps = "filter (\<lambda>c. trim c \<noteq> []) (split CHR '';'' s)"
  from a have m: "mapE (cookieOfPiece now) ?ps = Inr cs'" by (simp only: normalize_string_mapE)
  from mapE_Inr [OF m] have len: "length cs' = length ?ps"
    and each: "\<forall>i<length ?ps. cookieOfPiece now (?ps ! i) = Inr (cs' ! i)" by auto
  from each have fields: "\<forall>i<length ?ps. cookieOfPiece now (?ps ! i) = Inr (cs' ! i) \<and>
          key (cs' ! i) = trim (hd (split CHR ''='' (?ps ! i))) \<and>
          val (cs' ! i) = trim (hd (tl (split CHR ''='' (?ps ! i)))) \<and>
          domain (cs' ! i) = ''.facebook.com'' \<and> path (cs' ! i) = ''/'' \<and>
          expires (cs' ! i) = now + oneYear"
    using cookieOfPiece_fields by blast
  from len fields show "let ps = ?ps in
       length cs' = length ps \<and>
       (\<forall>i<length ps. cookieOfPiece now (ps ! i) = Inr (cs' ! i) \<and>
          key (cs' ! i) = trim (hd (split CHR ''='' (ps ! i))) \<and>
          val (cs' ! i) = trim (hd (tl (split CHR ''='' (ps ! i)))) \<and>
          domain (cs' ! i) = ''.facebook.com'' \<and> path (cs' ! i) = ''/'' \<and>
          expires (cs' ! i) = now + oneYear)"
    unfolding Let_def by (rule conjI)
  from len show "length cs' = length ?ps" .
  show "\<forall>c \<in> set cs'. expires c = now + oneYear"
  proof
    fix c assume "c \<in> set cs'"
    then obtain i where "i < length cs'" "cs' ! i = c" by (auto simp: in_set_conv_nth)
    with len fields show "expires c = now + oneYear" by auto
  qed
next
  show "(\<exists>ok. normalizeAppState now (Some (AppString s)) = Inr ok) \<longleftrightarrow>
        (\<forall>p \<in> set (filter (\<lambda>c. trim c \<noteq> []) (split CHR '';'' s)).
           case split CHR ''='' p of k # v # rest \<Rightarrow> k \<noteq> [] \<and> v \<noteq> [] | _ \<Rightarrow> False)"
    unfolding normalize_string_mapE mapE_iff cookieOfPiece_ok_iff ..
next
  assume "normalizeAppState now (Some (AppObject (Some inner))) = Inr cs''"
  then show "normalizeAppState now (Some inner) = Inr cs''" by (simp split: if_splits)
next
  assume "truthyAppState wrapped"
  then show "normalizeAppState now (Some (AppObject wrapped)) = normalizeAppState now wrapped"
    by simp
next
  assume "\<not> truthyAppState wrapped"
  then show "normalizeAppState now (Some (AppObject wrapped)) = Inl (Error ''Unsupported appState format'')"
    by simp
qed

lemma norm_ab: "normalizeAppState 1000 (Some (AppArray [entryA, entryB]))
     = Inr [\<lparr>key = ''xs'', val = ''first'', domain = ''.facebook.com'', path = ''/'', expires = 31536001000\<rparr>,
            \<lparr>key = ''xs'', val = ''second'', domain = ''.facebook.com'', path = ''/'', expires = 5\<rparr>]"
  by (simp add: entryA_def entryB_def cookieOfEntry_def trim_def isWhiteSpace_def oneYear_def)

lemma norm_str: "normalizeAppState 1000 (Some (AppString ''c_user=1; xs=a''))
     = Inr [\<lparr>key = ''c_user'', val = ''1'', domain = ''.facebook.com'', path = ''/'', expires = 31536001000\<rparr>,
            \<lparr>key = ''xs'', val = ''a'', domain = ''.facebook.com'', path = ''/'', expires = 31536001000\<rparr>]"
  by (simp add: cookieOfPiece_def trim_def isWhiteSpace_def oneYear_def)

theorem normalizeAppState_entries_witness:
  "length [\<lparr>key = ''xs'', val = ''first'', domain = ''.facebook.com'', path = ''/'', expires = 31536001000\<rparr>,
            \<lparr>key = ''xs'', val = ''second'', domain = ''.facebook.com'', path = ''/'', expires = 5\<rparr>]
     = length [entryA, entryB]
   \<and> cookieOfEntry 1000 entryA = Inr \<lparr>key = ''xs'', val = ''first'', domain = ''.facebook.com'', path = ''/'', expires = 1000 + oneYear\<rparr>
   \<and> cookieOfEntry 1000 entryB = Inr \<lparr>key = ''xs'', val = ''second'', domain = ''.facebook.com'', path = ''/'', expires = 5\<rparr>
   \<and> normalizeAppState 1000 (Some (AppArray [entryA, entryB]))
     = Inr [\<lparr>key = ''xs'', val = ''first'', domain = ''.facebook.com'', path = ''/'', expires = 31536001000\<rparr>,
            \<lparr>key = ''xs'', val = ''second'', domain = ''.facebook.com'', path = ''/'', expires = 5\<rparr>]
   \<and> normalizeAppState 1000 (Some (AppString ''c_user=1; xs=a''))
     = Inr [\<lparr>key = ''c_user'', val = ''1'', domain = ''.facebook.com'', path = ''/'', expires = 1000 + oneYear\<rparr>,
            \<lparr>key = ''xs'', val = ''a'', domain = ''.facebook.com'', path = ''/'', expires = 1000 + oneYear\<rparr>]"
  using normalizeAppState_entries [where now = 1000 and rs = "[entryA, entryB]"
      and cs = "[\<lparr>key = ''xs'', val = ''first'', domain = ''.facebook.com'', path = ''/'', expires = 31536001000\<rparr>,
        \<lparr>key = ''xs'', val = ''second'', domain = ''.facebook.com'', path = ''/'', expires = 5\<rparr>]"
      and s = "''c_user=1; xs=a''"
      and cs' = "[\<lparr>key = ''c_user'', val = ''1'', domain = ''.facebook.com'', path = ''/'', expires = 31536001000\<rparr>,
        \<lparr>key = ''xs'', val = ''a'', domain = ''.facebook.com'', path = ''/'', expires = 31536001000\<rparr>]"
      and inner = "AppArray [entryA, entryB]"
      and cs'' = "[\<lparr>key = ''xs'', val = ''first'', domain = ''.facebook.com'', path = ''/'', expires = 31536001000\<rparr>,
        \<lparr>key = ''xs'', val = ''second'', domain = ''.facebook.com'', path = ''/'', expires = 5\<rparr>]"
      and wrapped = "Some (AppArray [entryA, entryB])"]
    norm_ab norm_str
  by (simp add: oneYear_def nth_Cons' entryA_def entryB_def cookieOfEntry_def trim_def isWhiteSpace_def)

text \<open>
  The claim as written promises keys that are unique per domain. Two array entries with
  the key \<open>xs\<close> and the default domain both survive normalization.
\<close>

theorem normalizeAppState_duplicate_counterexample:
  "normalizeAppState 1000 (Some (AppArray [entryA, entryB]))
     = Inr [\<lparr>key = ''xs'', val = ''first'', domain = ''.facebook.com'', path = ''/'', expires = 31536001000\<rparr>,
            \<lparr>key = ''xs'', val = ''second'', domain = ''.facebook.com'', path = ''/'', expires = 5\<rparr>]
   \<and> \<not> distinct (map domainKey
           [\<lparr>key = ''xs'', val = ''first'', domain = ''.facebook.com'', path = ''/'', expires = 31536001000\<rparr>,
            \<lparr>key = ''xs'', val = ''second'', domain = ''.facebook.com'', path = ''/'', expires = 5\<rparr>])"
  by (simp add: entryA_def entryB_def cookieOfEntry_def trim_def isWhiteSpace_def oneYear_def domainKey_def)

section \<open>Properties of getCookie\<close>

lemma split_not_Nil: "split sep s \<noteq> []"
  by (induction s) (auto split: list.splits)

lemma hd_split: "hd (split sep s) = takeWhile (\<lambda>x. x \<noteq> sep) s"
  by (induction s) (auto split: list.splits simp: split_not_Nil)

lemma hd_split_pair: "hd (split CHR ''='' (k @ ''='' @ v)) = takeWhile (\<lambda>x. x \<noteq> CHR ''='') k"
  by (simp add: hd_split takeWhile_tail)

lemma trim_last: "trim v \<noteq> [] \<Longrightarrow> \<not> isWhiteSpace (last (trim v))"
proof -
  assume a: "trim v \<noteq> []"
  let ?d = "dropWhile isWhiteSpace (rev (dropWhile isWhiteSpace v))"
  from a have ne: "?d \<noteq> []" by (simp add: trim_def)
  then have "\<not> isWhiteSpace (hd ?d)" by (rule hd_dropWhile)
  moreover have "last (trim v) = hd ?d" using ne by (simp add: trim_def last_rev)
  ultimately show ?thesis by simp
qed

lemma cookieOfEntry_val: "cookieOfEntry now r = Inr c \<Longrightarrow> \<exists>v. val c = trim v"
  by (auto simp: cookieOfEntry_def Let_def split: if_splits)

lemma pair_last: "val c = trim v \<Longrightarrow> \<not> isWhiteSpace (last (key c @ ''='' @ val c))"
  using trim_last [of v] by (cases "trim v = []") (auto simp: isWhiteSpace_def)

lemma join_last:
  "ps \<noteq> [] \<Longrightarrow> last ps \<noteq> [] \<Longrightarrow> join sep ps \<noteq> [] \<and> last (join sep ps) = last (last ps)"
  by (induction sep ps rule: join.induct) auto

lemma normalized_vals:
  assumes "normalizeAppState now (Some (AppArray jar)) = Inr appState" and "c \<in> set appState"
  shows "\<exists>v. val c = trim v"
proof -
  from assms(1) have m: "mapE (cookieOfEntry now) jar = Inr appState" by simp
  from assms(2) obtain i where "i < length appState" "appState ! i = c"
    by (auto simp: in_set_conv_nth)
  with mapE_Inr [OF m] have "cookieOfEntry now (jar ! i) = Inr c" by auto
  then show ?thesis by (rule cookieOfEntry_val)
qed

lemma mapE_total: "(\<forall>x \<in> set xs. \<exists>y. f x = Inr y) \<Longrightarrow> \<exists>ys. mapE f xs = Inr ys"
  by (induction xs) auto

lemma cookieOfEntry_total:
  "truthyStr (raw_value r) \<Longrightarrow> truthyStr (raw_key r) \<or> truthyStr (raw_name r)
     \<Longrightarrow> \<exists>c. cookieOfEntry now r = Inr c"
  by (auto simp: cookieOfEntry_def Let_def)

lemma getCookie_total:
  assumes "\<forall>r \<in> set jar. truthyStr (raw_value r) \<and> (truthyStr (raw_key r) \<or> truthyStr (raw_name r))"
  shows "\<exists>s. getCookie now jar = Inr s"
proof -
  from assms have "\<forall>r \<in> set jar. \<exists>c. cookieOfEntry now r = Inr c"
    using cookieOfEntry_total by blast
  then obtain cs where "mapE (cookieOfEntry now) jar = Inr cs" using mapE_total by blast
  then show ?thesis by (simp add: getCookie_def)
qed

lemma getCookie_Inr:
  assumes g: "getCookie now jar = Inr s"
  shows "(\<exists>appState cs. normalizeAppState now (Some (AppArray jar)) = Inr appState
            \<and> subseq cs appState
            \<and> s = join ''; '' (map (\<lambda>c. key c @ ''='' @ val c) cs)
            \<and> (\<forall>c \<in> set cs. takeWhile (\<lambda>x. x \<noteq> CHR ''='') (key c) \<in> set importantKeys))
        \<and> (s \<noteq> [] \<longrightarrow> \<not> isWhiteSpace (last s))
        \<and> \<not> suffix ''; '' s"
proof (intro conjI)
  from g obtain appState where n: "normalizeAppState now (Some (AppArray jar)) = Inr appState"
    by (auto simp: getCookie_def split: sum.splits)
  define P where "P = (\<lambda>c::cookie. takeWhile (\<lambda>x. x \<noteq> CHR ''='') (key c) \<in> set importantKeys)"
  define cs where "cs = filter P appState"
  have fm: "filter (\<lambda>cookie. hd (split CHR ''='' cookie) \<in> set importantKeys)
              (map (\<lambda>v. key v @ ''='' @ val v) appState)
            = map (\<lambda>c. key c @ ''='' @ val c) cs"
    unfolding cs_def P_def filter_map comp_def hd_split_pair ..
  have s: "s = join ''; '' (map (\<lambda>c. key c @ ''='' @ val c) cs)"
  proof (cases "appState = []")
    case True
    with g n show ?thesis by (simp add: getCookie_def cs_def)
  next
    case False
    with g n fm show ?thesis by (simp add: getCookie_def)
  qed
  have sub: "subseq cs appState" by (simp add: cs_def)
  have allow: "\<forall>c \<in> set cs. takeWhile (\<lambda>x. x \<noteq> CHR ''='') (key c) \<in> set importantKeys"
    by (simp add: cs_def P_def)
  show "\<exists>appState cs. normalizeAppState now (Some (AppArray jar)) = Inr appState
            \<and> subseq cs appState
            \<and> s = join ''; '' (map (\<lambda>c. key c @ ''='' @ val c) cs)
            \<and> (\<forall>c \<in> set cs. takeWhile (\<lambda>x. x \<noteq> CHR ''='') (key c) \<in> set importantKeys)"
    using n sub s allow by blast
  have lastws: "s \<noteq> [] \<Longrightarrow> \<not> isWhiteSpace (last s)"
  proof -
    assume "s \<noteq> []"
    with s have ne: "cs \<noteq> []" by auto
    let ?ps = "map (\<lambda>c. key c @ ''='' @ val c) cs"
    from ne have "last cs \<in> set appState" using cs_def last_in_set by (metis filter_is_subset subsetD)
    with n obtain v where v: "val (last cs) = trim v" using normalized_vals by blast
    have l: "last ?ps = key (last cs) @ ''='' @ val (last cs)" using ne by (simp add: last_map)
    then have "last ?ps \<noteq> []" by simp
    with join_last [of ?ps "''; ''"] ne have "last (join ''; '' ?ps) = last (last ?ps)" by simp
    with s l pair_last [OF v] show ?thesis by simp
  qed
  then show "s \<noteq> [] \<longrightarrow> \<not> isWhiteSpace (last s)" by simp
  show "\<not> suffix ''; '' s"
  proof
    assume "suffix ''; '' s"
    then obtain t where t: "s = t @ ''; ''" by (auto simp: suffix_def)
    then have "s \<noteq> []" "last s = CHR '' ''" by auto
    with lastws show False by (simp add: isWhiteSpace_def)
  qed
qed

lemma set_trim: "set (trim s) \<subseteq> set s"
proof -
  have "set (trim s) = set (dropWhile isWhiteSpace (rev (dropWhile isWhiteSpace s)))"
    by (simp add: trim_def)
  also have "\<dots> \<subseteq> set (rev (dropWhile isWhiteSpace s))" by (rule set_dropWhileD [THEN subsetI])
  also have "\<dots> \<subseteq> set s" using set_dropWhileD by fastforce
  finally show ?thesis .
qed

lemma subseq_member: "subseq xs ys \<Longrightarrow> x \<in> set xs \<Longrightarrow> x \<in> set ys"
  by (induction rule: list_emb.induct) auto

lemma cookieOfEntry_syntax:
  assumes "cookieOfEntry now r = Inr c" and "cookieSyntax r"
  shows "CHR ''='' \<notin> set (key c) \<and> CHR '';'' \<notin> set (key c) \<and> CHR '';'' \<notin> set (val c)"
proof -
  from assms(1) obtain k v where kv: "key c = trim k" "val c = trim v"
    "raw_key r = Some k \<or> raw_name r = Some k" "raw_value r = Some v"
    by (cases "raw_key r"; cases "raw_name r"; cases "raw_value r")
       (auto simp: cookieOfEntry_def Let_def split: if_splits)
  with assms(2) have "CHR ''='' \<notin> set k" "CHR '';'' \<notin> set k" "CHR '';'' \<notin> set v"
    by (auto simp: cookieSyntax_def)
  with kv(1,2) set_trim [of k] set_trim [of v] show ?thesis by auto
qed

lemma splitStr_single: "CHR '';'' \<notin> set p \<Longrightarrow> splitStr ''; '' p = [p]"
  by (induction p) auto

lemma splitStr_first:
  "CHR '';'' \<notin> set p \<Longrightarrow> splitStr ''; '' (p @ ''; '' @ rest) = p # splitStr ''; '' rest"
  by (induction p) auto

lemma splitStr_join:
  "ps \<noteq> [] \<Longrightarrow> \<forall>p \<in> set ps. CHR '';'' \<notin> set p \<Longrightarrow> splitStr ''; '' (join ''; '' ps) = ps"
proof (induction "''; ''" ps rule: join.induct)
  case 1
  then show ?case by simp
next
  case (2 x)
  then show ?case by (simp add: splitStr_single)
next
  case (3 x y ys)
  then have "splitStr ''; '' (join ''; '' (y # ys)) = y # ys" by simp
  moreover have "CHR '';'' \<notin> set x" using "3.prems" by simp
  ultimately show ?case using splitStr_first [of x "join ''; '' (y # ys)"] by simp
qed

lemma getCookie_syntax:
  assumes g: "getCookie now jar = Inr s" and wf: "\<forall>r \<in> set jar. cookieSyntax r"
  shows "(\<exists>appState cs. normalizeAppState now (Some (AppArray jar)) = Inr appState
            \<and> subseq cs appState
            \<and> (\<forall>c \<in> set cs. key c \<in> set importantKeys)
            \<and> s = join ''; '' (map (\<lambda>c. key c @ ''='' @ val c) cs)
            \<and> (s \<noteq> [] \<longrightarrow> splitStr ''; '' s = map (\<lambda>c. key c @ ''='' @ val c) cs))
         \<and> (s \<noteq> [] \<longrightarrow> (\<forall>p \<in> set (splitStr ''; '' s).
                takeWhile (\<lambda>x. x \<noteq> CHR ''='') p \<in> set importantKeys))
         \<and> \<not> suffix '';'' s"
proof -
  from getCookie_Inr [OF g]
  have "\<exists>appState cs. normalizeAppState now (Some (AppArray jar)) = Inr appState
            \<and> subseq cs appState
            \<and> s = join ''; '' (map (\<lambda>c. key c @ ''='' @ val c) cs)
            \<and> (\<forall>c \<in> set cs. takeWhile (\<lambda>x. x \<noteq> CHR ''='') (key c) \<in> set importantKeys)"
    by (rule conjunct1)
  then obtain appState cs where
    n: "normalizeAppState now (Some (AppArray jar)) = Inr appState"
    and sub: "subseq cs appState"
    and s: "s = join ''; '' (map (\<lambda>c. key c @ ''='' @ val c) cs)"
    and allow: "\<forall>c \<in> set cs. takeWhile (\<lambda>x. x \<noteq> CHR ''='') (key c) \<in> set importantKeys"
    by (elim exE conjE)
  from n have m: "mapE (cookieOfEntry now) jar = Inr appState" by simp
  have syn: "CHR ''='' \<notin> set (key c) \<and> CHR '';'' \<notin> set (key c) \<and> CHR '';'' \<notin> set (val c)"
    if "c \<in> set cs" for c
  proof -
    from sub that have "c \<in> set appState" by (rule subseq_member)
    then obtain i where "i < length appState" "appState ! i = c" by (auto simp: in_set_conv_nth)
    with mapE_Inr [OF m] have e: "cookieOfEntry now (jar ! i) = Inr c" and "i < length jar" by auto
    then have "cookieSyntax (jar ! i)" using wf by simp
    with e show ?thesis by (rule cookieOfEntry_syntax)
  qed
  let ?pair = "\<lambda>c::cookie. key c @ ''='' @ val c"
  have keys: "\<forall>c \<in> set cs. key c \<in> set importantKeys"
  proof
    fix c assume c: "c \<in> set cs"
    with syn have "CHR ''='' \<notin> set (key c)" by blast
    then have eq: "takeWhile (\<lambda>x. x \<noteq> CHR ''='') (key c) = key c"
      unfolding takeWhile_eq_all_conv by blast
    from allow c have "takeWhile (\<lambda>x. x \<noteq> CHR ''='') (key c) \<in> set importantKeys"
      by (rule bspec)
    then show "key c \<in> set importantKeys" unfolding eq .
  qed
  have nosemi: "\<forall>p \<in> set (map ?pair cs). CHR '';'' \<notin> set p" using syn by auto
  have ne: "s \<noteq> [] \<Longrightarrow> cs \<noteq> []" using s by auto
  have split: "s \<noteq> [] \<Longrightarrow> splitStr ''; '' s = map ?pair cs"
  proof -
    assume "s \<noteq> []"
    then have "map ?pair cs \<noteq> []" using ne by simp
    then have "splitStr ''; '' (join ''; '' (map ?pair cs)) = map ?pair cs"
      using nosemi by (rule splitStr_join)
    then show ?thesis unfolding s .
  qed
  have names: "s \<noteq> [] \<Longrightarrow> \<forall>p \<in> set (splitStr ''; '' s).
                takeWhile (\<lambda>x. x \<noteq> CHR ''='') p \<in> set importantKeys"
  proof -
    assume "s \<noteq> []"
    with split have e: "splitStr ''; '' s = map ?pair cs" by simp
    show ?thesis unfolding e
    proof
      fix p assume "p \<in> set (map ?pair cs)"
      then obtain c where c: "c \<in> set cs" "p = key c @ ''='' @ val c" by auto
      with syn have "CHR ''='' \<notin> set (key c)" by blast
      then have "takeWhile (\<lambda>x. x \<noteq> CHR ''='') (key c) = key c"
        unfolding takeWhile_eq_all_conv by blast
      with c(2) have eq: "takeWhile (\<lambda>x. x \<noteq> CHR ''='') p = key c"
        by (simp add: takeWhile_tail)
      from keys c(1) have "key c \<in> set importantKeys" by (rule bspec)
      then show "takeWhile (\<lambda>x. x \<noteq> CHR ''='') p \<in> set importantKeys" unfolding eq .
    qed
  qed
  have nosuffix: "\<not> suffix '';'' s"
  proof
    assume "suffix '';'' s"
    then obtain u where u: "s = u @ '';''" by (auto simp: suffix_def)
    then have sne: "s \<noteq> []" and l: "last s = CHR '';''" by auto
    from ne [OF sne] have cne: "map ?pair cs \<noteq> []" by simp
    have "last (map ?pair cs) \<noteq> []" using cne by (simp add: last_map)
    with join_last [OF cne, of "''; ''"] s have "last s = last (last (map ?pair cs))" by simp
    moreover have "last (last (map ?pair cs)) \<in> set (last (map ?pair cs))"
      using \<open>last (map ?pair cs) \<noteq> []\<close> by (rule last_in_set)
    moreover have "CHR '';'' \<notin> set (last (map ?pair cs))" using nosemi cne last_in_set by blast
    ultimately show False using l by simp
  qed
  have part1: "\<exists>appState cs. normalizeAppState now (Some (AppArray jar)) = Inr appState
            \<and> subseq cs appState
            \<and> (\<forall>c \<in> set cs. key c \<in> set importantKeys)
            \<and> s = join ''; '' (map (\<lambda>c. key c @ ''='' @ val c) cs)
            \<and> (s \<noteq> [] \<longrightarrow> splitStr ''; '' s = map (\<lambda>c. key c @ ''='' @ val c) cs)"
  proof (intro exI conjI impI)
    show "normalizeAppState now (Some (AppArray jar)) = Inr appState" by (rule n)
    show "subseq cs appState" by (rule sub)
    show "\<forall>c \<in> set cs. key c \<in> set importantKeys" by (rule keys)
    show "s = join ''; '' (map (\<lambda>c. key c @ ''='' @ val c) cs)" by (rule s)
    show "splitStr ''; '' s = map (\<lambda>c. key c @ ''='' @ val c) cs" if "s \<noteq> []"
      using that by (rule split)
  qed
  have part2: "s \<noteq> [] \<longrightarrow> (\<forall>p \<in> set (splitStr ''; '' s).
                takeWhile (\<lambda>x. x \<noteq> CHR ''='') p \<in> set importantKeys)"
    using names by (rule impI)
  from part1 part2 nosuffix show ?thesis by (intro conjI)
qed

text \<open>
  C7. On an empty app state \<open>getCookie\<close> returns the empty string. It returns a
  string whenever every cookie of the jar has a non-empty value and a non-empty key or
  name (an entry without them makes the normalization throw). Whenever it returns a
  string on a jar whose cookies keep to the cookie syntax, that string is the
  \<open>key=value\<close> pairs of a subsequence of the normalized app state joined by \<open>; \<close>,
  every key among them is in the allow-list, the string split at \<open>; \<close> gives back
  exactly these pairs, so that the name of every piece of the string is in the
  allow-list, and the string ends neither with \<open>;\<close> nor with \<open>; \<close> nor with any white
  space. Without the assumption on the syntax, the text before the first \<open>=\<close> of every
  emitted pair is still in the allow-list and the string still does not end with the
  separator.
\<close>

theorem getCookie_allow_list:
  "getCookie now [] = Inr []
   \<and> ((\<forall>r \<in> set jar'. truthyStr (raw_value r) \<and> (truthyStr (raw_key r) \<or> truthyStr (raw_name r)))
        \<longrightarrow> (\<exists>s'. getCookie now jar' = Inr s'))
   \<and> (getCookie now jar = Inr s \<longrightarrow>
        (\<exists>appState cs. normalizeAppState now (Some (AppArray jar)) = Inr appState
            \<and> subseq cs appState
            \<and> s = join ''; '' (map (\<lambda>c. key c @ ''='' @ val c) cs)
            \<and> (\<forall>c \<in> set cs. takeWhile (\<lambda>x. x \<noteq> CHR ''='') (key c) \<in> set importantKeys))
        \<and> (s \<noteq> [] \<longrightarrow> \<not> isWhiteSpace (last s))
        \<and> \<not> suffix ''; '' s)
   \<and> (getCookie now jar = Inr s \<and> (\<forall>r \<in> set jar. cookieSyntax r) \<longrightarrow>
        (\<exists>appState cs. normalizeAppState now (Some (AppArray jar)) = Inr appState
            \<and> subseq cs appState
            \<and> (\<forall>c \<in> set cs. key c \<in> set importantKeys)
            \<and> s = join ''; '' (map (\<lambda>c. key c @ ''='' @ val c) cs)
            \<and> (s \<noteq> [] \<longrightarrow> splitStr ''; '' s = map (\<lambda>c. key c @ ''='' @ val c) cs))
        \<and> (s \<noteq> [] \<longrightarrow> (\<forall>p \<in> set (splitStr ''; '' s).
               takeWhile (\<lambda>x. x \<noteq> CHR ''='') p \<in> set importantKeys))
        \<and> \<not> suffix '';'' s)"
proof (intro conjI)
  show "getCookie now [] = Inr []" by (simp add: getCookie_def)
next
  show "(\<forall>r \<in> set jar'. truthyStr (raw_value r) \<and> (truthyStr (raw_key r) \<or> truthyStr (raw_name r)))
        \<longrightarrow> (\<exists>s'. getCookie now jar' = Inr s')"
    using getCookie_total by blast
next
  show "getCookie now jar = Inr s \<longrightarrow>
        (\<exists>appState cs. normalizeAppState now (Some (AppArray jar)) = Inr appState
            \<and> subseq cs appState
            \<and> s = join ''; '' (map (\<lambda>c. key c @ ''='' @ val c) cs)
            \<and> (\<forall>c \<in> set cs. takeWhile (\<lambda>x. x \<noteq> CHR ''='') (key c) \<in> set importantKeys))
        \<and> (s \<noteq> [] \<longrightarrow> \<not> isWhiteSpace (last s))
        \<and> \<not> suffix ''; '' s"
    by (rule impI) (rule getCookie_Inr)
next
  show "getCookie now jar = Inr s \<and> (\<forall>r \<in> set jar. cookieSyntax r) \<longrightarrow>
        (\<exists>appState cs. normalizeAppState now (Some (AppArray jar)) = Inr appState
            \<and> subseq cs appState
            \<and> (\<forall>c \<in> set cs. key c \<in> set importantKeys)
            \<and> s = join ''; '' (map (\<lambda>c. key c @ ''='' @ val c) cs)
            \<and> (s \<noteq> [] \<longrightarrow> splitStr ''; '' s = map (\<lambda>c. key c @ ''='' @ val c) cs))
        \<and> (s \<noteq> [] \<longrightarrow> (\<forall>p \<in> set (splitStr ''; '' s).
               takeWhile (\<lambda>x. x \<noteq> CHR ''='') p \<in> set importantKeys))
        \<and> \<not> suffix '';'' s"
  proof (rule impI)
    assume a: "getCookie now jar = Inr s \<and> (\<forall>r \<in> set jar. cookieSyntax r)"
    from a have g: "getCookie now jar = Inr s" by (rule conjunct1)
    from a have wf: "\<forall>r \<in> set jar. cookieSyntax r" by (rule conjunct2)
    from g wf show "(\<exists>appState cs. normalizeAppState now (Some (AppArray jar)) = Inr appState
            \<and> subseq cs appState
            \<and> (\<forall>c \<in> set cs. key c \<in> set importantKeys)
            \<and> s = join ''; '' (map (\<lambda>c. key c @ ''='' @ val c) cs)
            \<and> (s \<noteq> [] \<longrightarrow> splitStr ''; '' s = map (\<lambda>c. key c @ ''='' @ val c) cs))
        \<and> (s \<noteq> [] \<longrightarrow> (\<forall>p \<in> set (splitStr ''; '' s).
               takeWhile (\<lambda>x. x \<noteq> CHR ''='') p \<in> set importantKeys))
        \<and> \<not> suffix '';'' s"
      by (rule getCookie_syntax)
  qed
qed

lemma getCookie_example: "getCookie 0 jarExample = Inr ''c_user=100001; xs=abc''"
  by (simp add: getCookie_def jarExample_def cookieOfEntry_def trim_def isWhiteSpace_def importantKeys_def)

lemma jarExample_syntax: "\<forall>r \<in> set jarExample. cookieSyntax r"
  by (simp add: jarExample_def cookieSyntax_def)

theorem getCookie_allow_list_witness:
  "getCookie 0 [] = Inr [] \<and> getCookie 0 jarExample = Inr ''c_user=100001; xs=abc''
   \<and> list_all cookieSyntax jarExample
   \<and> list_all (\<lambda>p. takeWhile (\<lambda>x. x \<noteq> CHR ''='') p \<in> set importantKeys)
        (splitStr ''; '' ''c_user=100001; xs=abc'')
   \<and> \<not> isWhiteSpace (last ''c_user=100001; xs=abc'')
   \<and> \<not> suffix '';'' ''c_user=100001; xs=abc''
   \<and> \<not> suffix ''; '' ''c_user=100001; xs=abc''"
proof -
  let ?s = "''c_user=100001; xs=abc''"
  note th = getCookie_allow_list [where now = 0 and jar = jarExample and jar' = jarExample
      and s = ?s]
  have ne: "?s \<noteq> []" by simp
  from th have e: "getCookie 0 [] = Inr []" by (rule conjunct1)
  note th3 = th [THEN conjunct2, THEN conjunct2, THEN conjunct1, THEN mp, OF getCookie_example]
  note th4 = th [THEN conjunct2, THEN conjunct2, THEN conjunct2, THEN mp,
      OF conjI [OF getCookie_example jarExample_syntax]]
  from th3 have general: "(?s \<noteq> [] \<longrightarrow> \<not> isWhiteSpace (last ?s)) \<and> \<not> suffix ''; '' ?s"
    by (rule conjunct2)
  from th4 have wellformed: "(?s \<noteq> [] \<longrightarrow> (\<forall>p \<in> set (splitStr ''; '' ?s).
               takeWhile (\<lambda>x. x \<noteq> CHR ''='') p \<in> set importantKeys))
        \<and> \<not> suffix '';'' ?s"
    by (rule conjunct2)
  from general ne have g1: "\<not> isWhiteSpace (last ?s)" and g2: "\<not> suffix ''; '' ?s" by simp_all
  from wellformed ne have w1: "\<forall>p \<in> set (splitStr ''; '' ?s).
               takeWhile (\<lambda>x. x \<noteq> CHR ''='') p \<in> set importantKeys"
    and w2: "\<not> suffix '';'' ?s" by blast+
  from jarExample_syntax have j: "list_all cookieSyntax jarExample"
    unfolding list_all_iff .
  from w1 have w1': "list_all (\<lambda>p. takeWhile (\<lambda>x. x \<noteq> CHR ''='') p \<in> set importantKeys)
        (splitStr ''; '' ?s)"
    unfolding list_all_iff .
  from e getCookie_example j w1' g1 w2 g2 show ?thesis by (intro conjI)
qed

section \<open>Properties of the checkpoint classifier\<close>

lemma includes_str_sublist: "includes_str s sub = sublist sub s"
  by (induction s) (auto simp: sublist_Cons_right)

lemma firstSplit_sound:
  "firstSplit k acc s = Some (g, r) \<Longrightarrow>
     \<exists>a rest. g = rev acc @ a \<and> s = a @ rest \<and> k rest = Some r \<and> (\<forall>c \<in> set a. \<not> isLineTerminator c)"
proof (induction s arbitrary: acc)
  case Nil
  then show ?case by (auto split: option.splits)
next
  case (Cons c cs)
  show ?case
  proof (cases "k (c # cs)")
    case (Some r')
    with Cons.prems have "g = rev acc" "r = r'" by auto
    with Some show ?thesis by auto
  next
    case None
    with Cons.prems have nl: "\<not> isLineTerminator c" and rec: "firstSplit k (c # acc) cs = Some (g, r)"
      by (auto split: if_splits)
    from Cons.IH [OF rec] obtain a rest where
      "g = rev (c # acc) @ a" "cs = a @ rest" "k rest = Some r" "\<forall>x \<in> set a. \<not> isLineTerminator x"
      by blast
    with nl have "g = rev acc @ (c # a) \<and> c # cs = (c # a) @ rest \<and> k rest = Some r
        \<and> (\<forall>x \<in> set (c # a). \<not> isLineTerminator x)" by simp
    then show ?thesis by blast
  qed
qed

lemma greedySplit_sound:
  "greedySplit k n s = Some (g, r) \<Longrightarrow> \<exists>j. g = take j s \<and> k (drop j s) = Some r"
  by (induction n) (auto split: option.splits)

lemma rxMatch_sound: "rxMatch ts s = Some gs \<Longrightarrow> prefix (fill ts gs) s"
proof (induction ts s arbitrary: gs rule: rxMatch.induct)
  case (1 s)
  then show ?case by simp
next
  case (2 p ts s)
  from "2.prems" have p: "prefix p s" and r: "rxMatch ts (drop (length p) s) = Some gs"
    by (auto split: if_splits)
  from "2.IH" [OF p r] have "prefix (fill ts gs) (drop (length p) s)" .
  with p show ?case by (auto simp: prefix_def)
next
  case (3 ts s)
  from "3.prems" obtain g gs' where f: "firstSplit (\<lambda>u. rxMatch ts u) [] s = Some (g, gs')" and e: "gs = g # gs'"
    by (auto split: option.splits)
  from firstSplit_sound [OF f] obtain a rest where
    a: "g = a" "s = a @ rest" "rxMatch ts rest = Some gs'" by auto
  from "3.IH" [OF a(3)] have "prefix (fill ts gs') rest" .
  with a e show ?case by (auto simp: prefix_def)
next
  case (4 c ts s)
  from "4.prems" obtain g gs' where
    f: "greedySplit (\<lambda>u. rxMatch ts u) (length (takeWhile (\<lambda>x. x \<noteq> c) s)) s = Some (g, gs')"
    and e: "gs = g # gs'"
    by (auto split: option.splits)
  from greedySplit_sound [OF f] obtain j where
    j: "g = take j s" "rxMatch ts (drop j s) = Some gs'" by auto
  from "4.IH" [OF j(2)] have "prefix (fill ts gs') (drop j s)" .
  then obtain rest where "drop j s = fill ts gs' @ rest" by (auto simp: prefix_def)
  then have "s = take j s @ fill ts gs' @ rest" by (metis append_take_drop_id)
  with j e show ?case by (auto simp: prefix_def)
qed

lemma rxSearch_sound: "rxSearch ts s = Some gs \<Longrightarrow> sublist (fill ts gs) s"
proof (induction s)
  case Nil
  then have "prefix (fill ts gs) []" using rxMatch_sound by fastforce
  then show ?case by simp
next
  case (Cons c cs)
  show ?case
  proof (cases "rxMatch ts (c # cs)")
    case None
    with Cons have "sublist (fill ts gs) cs" by simp
    then show ?thesis by (simp add: sublist_Cons_right)
  next
    case (Some gs')
    with Cons.prems have "gs' = gs" by simp
    with Some have "prefix (fill ts gs) (c # cs)" using rxMatch_sound by blast
    then show ?thesis by (rule prefix_imp_sublist)
  qed
qed


lemma replaceFirst_prefix: "replaceFirst pat [] (pat @ t) = t"
proof (cases "pat @ t")
  case Nil
  then show ?thesis by simp
next
  case (Cons a list)
  from replaceFirst.simps(2) [of pat "[]" a list] show ?thesis
    unfolding Cons [symmetric] by simp
qed

lemma toUpperChar_a: "toUpperChar CHR ''a'' = CHR ''A''"
  by (simp add: toUpperChar_def lowerLetters_def upperLetters_def)

lemma checkIfSuspended_fields:
  assumes "hrefIncludes resp checkpointURL" and "hrefIncludes resp suspendedFlow"
    and "body resp = Some b"
    and "rxSearch durationRx b = Some [u, d]" and "d \<noteq> []"
    and "rxSearch reasonRx b = Some [l]" and "l \<noteq> []"
  shows "checkIfSuspended resp =
           Some \<lparr>durationInfo = Some d, longReason = Some l,
                 shortReason = Some (capitalize (replaceFirst boilerplate [] (toLowerCase l)))\<rparr>"
  using assms by (simp add: checkIfSuspended_def shortOf_def)

lemmas string_defs = dq_def boilerplate_def toLowerCase_def toLowerChar_def toUpperChar_def
  lowerLetters_def upperLetters_def isLineTerminator_def

lemma suspendedLong_eq:
  "suspendedLong = ''your account, or activity on it, doesn'' @ [CHR 0x27]
       @ ''t follow our community standards on account Integrity''"
  by (simp add: suspendedLong_def boilerplate_def)

lemma suspended_duration: "rxSearch durationRx suspendedBody = Some [''/logout'', ''30 days left'']"
  by (simp add: durationRx_def suspendedBody_def suspendedLong_eq dq_def isLineTerminator_def)

lemma suspended_reason: "rxSearch reasonRx suspendedBody = Some [suspendedLong]"
  by (simp add: reasonRx_def suspendedBody_def suspendedLong_eq dq_def isLineTerminator_def)

lemma suspended_href:
  "hrefIncludes suspendedResp checkpointURL" "hrefIncludes suspendedResp suspendedFlow"
  by (simp_all add: hrefIncludes_def suspendedResp_def checkpointURL_def suspendedFlow_def)

lemma suspended_lower: "toLowerCase suspendedLong = boilerplate @ ''account integrity''"
  by (simp add: suspendedLong_eq string_defs)

lemma suspended_outcome:
  "checkIfSuspended suspendedResp =
     Some \<lparr>durationInfo = Some ''30 days left'', longReason = Some suspendedLong,
           shortReason = Some ''Account integrity''\<rparr>"
proof -
  have b: "body suspendedResp = Some suspendedBody" by (simp add: suspendedResp_def)
  have l: "suspendedLong \<noteq> []" by (simp add: suspendedLong_eq)
  have "checkIfSuspended suspendedResp =
     Some \<lparr>durationInfo = Some ''30 days left'', longReason = Some suspendedLong,
           shortReason = Some (capitalize (replaceFirst boilerplate [] (toLowerCase suspendedLong)))\<rparr>"
    using suspended_href b suspended_duration _ suspended_reason l
    by (rule checkIfSuspended_fields) simp
  then show ?thesis by (simp add: suspended_lower replaceFirst_prefix toUpperChar_a)
qed

text \<open>
  C2, as the source has it. On a response whose address contains the checkpoint path
  and the suspended flow identifier, and whose body matches the duration pattern and the
  reason pattern with non-empty texts \<open>d\<close> and \<open>l\<close>, \<open>checkIfSuspended\<close> reports a
  suspension that carries \<open>d\<close> as \<open>durationInfo\<close>, \<open>l\<close> as \<open>longReason\<close> and, as
  \<open>shortReason\<close>, the lower-cased \<open>l\<close> without the first occurrence of the boilerplate
  and with its first character in upper case. The body then contains the two patterns
  spelled out with these texts; and when the lower-cased \<open>l\<close> starts with the
  boilerplate, \<open>shortReason\<close> is the rest of it, capitalized.
\<close>

theorem checkIfSuspended_suspended:
  assumes "hrefIncludes resp checkpointURL" and "hrefIncludes resp suspendedFlow"
    and "body resp = Some b"
    and "rxSearch durationRx b = Some [u, d]" and "d \<noteq> []"
    and "rxSearch reasonRx b = Some [l]" and "l \<noteq> []"
  shows "checkIfSuspended resp =
           Some \<lparr>durationInfo = Some d, longReason = Some l,
                 shortReason = Some (capitalize (replaceFirst boilerplate [] (toLowerCase l)))\<rparr>
         \<and> sublist (fill durationRx [u, d]) b
         \<and> sublist (fill reasonRx [l]) b
         \<and> (toLowerCase l = boilerplate @ t \<longrightarrow>
              capitalize (replaceFirst boilerplate [] (toLowerCase l)) = capitalize t)"
proof (intro conjI impI)
  show "checkIfSuspended resp =
           Some \<lparr>durationInfo = Some d, longReason = Some l,
                 shortReason = Some (capitalize (replaceFirst boilerplate [] (toLowerCase l)))\<rparr>"
    using assms by (rule checkIfSuspended_fields)
  show "sublist (fill durationRx [u, d]) b" using assms(4) by (rule rxSearch_sound)
  show "sublist (fill reasonRx [l]) b" using assms(6) by (rule rxSearch_sound)
next
  assume "toLowerCase l = boilerplate @ t"
  then show "capitalize (replaceFirst boilerplate [] (toLowerCase l)) = capitalize t"
    by (simp add: replaceFirst_prefix)
qed

theorem checkIfSuspended_suspended_witness:
  "checkIfSuspended suspendedResp =
     Some \<lparr>durationInfo = Some ''30 days left'', longReason = Some suspendedLong,
           shortReason = Some ''Account integrity''\<rparr>
   \<and> sublist (fill durationRx [''/logout'', ''30 days left'']) suspendedBody
   \<and> sublist (fill reasonRx [suspendedLong]) suspendedBody"
proof -
  have b: "body suspendedResp = Some suspendedBody" by (simp add: suspendedResp_def)
  have d: "''30 days left'' \<noteq> []" by simp
  have l: "suspendedLong \<noteq> []" by (simp add: suspendedLong_eq)
  note th = checkIfSuspended_suspended [OF suspended_href b suspended_duration d suspended_reason l,
      of "''account integrity''"]
  from th suspended_lower
  have "capitalize (replaceFirst boilerplate [] (toLowerCase suspendedLong)) = ''Account integrity''"
    by (simp add: toUpperChar_a)
  with th show ?thesis by simp
qed

text \<open>
  The claim as written makes \<open>shortReason\<close> the long reason itself without the
  boilerplate prefix, capitalized. The source lower-cases the long reason first, so a
  long reason that ends in \<open>account Integrity\<close> gives \<open>Account integrity\<close> and not
  \<open>Account Integrity\<close>.
\<close>

theorem checkIfSuspended_short_counterexample:
  "checkIfSuspended suspendedResp =
     Some \<lparr>durationInfo = Some ''30 days left'', longReason = Some suspendedLong,
           shortReason = Some ''Account integrity''\<rparr>
   \<and> specShortReason suspendedLong = ''Account Integrity''"
proof
  show "checkIfSuspended suspendedResp =
     Some \<lparr>durationInfo = Some ''30 days left'', longReason = Some suspendedLong,
           shortReason = Some ''Account integrity''\<rparr>"
    by (rule suspended_outcome)
  show "specShortReason suspendedLong = ''Account Integrity''"
    by (simp add: specShortReason_def suspendedLong_def toUpperChar_a)
qed

lemma hrefIncludes_part: "hrefIncludes resp (p @ q) \<Longrightarrow> hrefIncludes resp q"
  unfolding hrefIncludes_def includes_str_sublist
  by (auto split: option.splits intro: sublist_order.order.trans [of q "p @ q"])

lemma no_checkpoint_none:
  assumes "\<not> hrefIncludes resp checkpointURL"
  shows "checkIfSuspended resp = None \<and> checkIfLocked resp = None
         \<and> bypassAutoBehavior E resp m = (Inr (Some resp), m)"
  using assms by (simp add: checkIfSuspended_def checkIfLocked_def bypassAutoBehavior_def)

text \<open>
  C3. On a response whose address does not contain the checkpoint path, whatever its
  body, the suspension check and the lock check report nothing and the automation bypass
  returns the response it was given, posts nothing and leaves the state as it was. The
  source tests for the full prefix \<open>https://www.facebook.com/checkpoint/\<close>; an address
  without the segment \<open>/checkpoint/\<close> does not contain it either.
\<close>

theorem no_checkpoint_outcome_none:
  "(\<not> hrefIncludes resp checkpointURL \<longrightarrow>
      checkIfSuspended resp = None \<and> checkIfLocked resp = None
      \<and> bypassAutoBehavior E resp m = (Inr (Some resp), m))
   \<and> (\<not> hrefIncludes resp ''/checkpoint/'' \<longrightarrow>
      checkIfSuspended resp = None \<and> checkIfLocked resp = None
      \<and> bypassAutoBehavior E resp m = (Inr (Some resp), m))"
proof (intro conjI impI)
  assume a: "\<not> hrefIncludes resp ''/checkpoint/''"
  have "checkpointURL = ''https://www.facebook.com'' @ ''/checkpoint/''"
    by (simp add: checkpointURL_def)
  with a hrefIncludes_part have n: "\<not> hrefIncludes resp checkpointURL" by metis
  from no_checkpoint_none [OF n]
  show "checkIfSuspended resp = None" "checkIfLocked resp = None"
    "bypassAutoBehavior E resp m = (Inr (Some resp), m)" by simp_all
next
  assume n: "\<not> hrefIncludes resp checkpointURL"
  from no_checkpoint_none [OF n]
  show "checkIfSuspended resp = None" "checkIfLocked resp = None"
    "bypassAutoBehavior E resp m = (Inr (Some resp), m)" by simp_all
qed

theorem no_checkpoint_outcome_none_witness:
  "checkIfSuspended homeResp = None \<and> checkIfLocked homeResp = None
   \<and> bypassAutoBehavior envExample homeResp machine0 = (Inr (Some homeResp), machine0)"
proof -
  have "\<not> hrefIncludes homeResp ''/checkpoint/''" "\<not> hrefIncludes homeResp checkpointURL"
    by (simp_all add: hrefIncludes_def homeResp_def checkpointURL_def)
  with no_checkpoint_outcome_none [of homeResp envExample machine0] show ?thesis by simp
qed

section \<open>Properties of token persistence\<close>


lemma objectAssign_proto:
  "existingData ''__proto__'' = None \<Longrightarrow> objectAssign existingData ''__proto__'' v = existingData"
  by (simp add: objectAssign_def)

text \<open>
  With the key \<open>__proto__\<close> and no own entry of that name in the file, the assignment
  \<open>existingData[UID] = {...}\<close> sets the prototype of the object: the file is written back
  with the entries it had, the pair is lost, and reading that key gives an inherited
  object, not a token pair.
\<close>

lemma updateDTSG_proto_lost:
  assumes "res = Some r" and "truthyStr (body r)"
    and "getFrom E (body r) dtsgStart dtsgEnd = Inr fb" and "fb \<noteq> []"
    and "getFrom E (body r) jazoestStart jazoestEnd = Inr jz" and "jz \<noteq> []"
    and "dtsgFile m = Stored existingData"
    and "String_opt (resolveUID ID appstate (jarCookies E (length (requests m)))) = ''__proto__''"
    and "existingData ''__proto__'' = None"
  shows "updateDTSG E res appstate ID m = (Inr r, m\<lparr>dtsgFile := Stored existingData\<rparr>)
         \<and> readEntry existingData ''__proto__'' = Inherited"
  using assms
  by (auto simp: updateDTSG_def Let_def objectAssign_def readEntry_def objectPrototypeNames_def)




section \<open>Properties of the session handle's setOptions\<close>

lemma getRandomRegion_in: "getRandomRegion i \<in> set defaultRegions"
proof -
  have "length defaultRegions = 11" by (simp add: defaultRegions_def)
  then have "i mod length defaultRegions < length defaultRegions" by simp
  then show ?thesis unfolding getRandomRegion_def by (rule nth_mem)
qed

lemmas upper_defs = toUpperCase_def toUpperChar_def lowerLetters_def upperLetters_def trim_def
  isWhiteSpace_def

lemma validate_sin: "validateRegion (JStr ''sin'')
    = Inr \<lparr>code = ''SIN'', name = ''Singapore'', location = ''Singapore''\<rparr>"
  by (simp add: validateRegion_def defaultRegions_def upper_defs)

lemma validate_mars: "validateRegion (JStr ''mars'')
    = Inl (Error (''Invalid region code: mars. Supported regions: '' @ supportedRegions))"
  by (simp add: validateRegion_def defaultRegions_def upper_defs)

lemma random_vll: "getRandomRegion (randomIndex envExample)
    = \<lparr>code = ''VLL'', name = ''Valley Region'', location = ''Valley''\<rparr>"
  by (simp add: getRandomRegion_def envExample_def defaultRegions_def)

text \<open>
  C9, as the source has it. Every call of the handle's \<open>setOptions\<close> assigns the
  region and recomputes the endpoint: after every call the region is a catalog code and
  the endpoint is the address built from that code and the user id. When the options
  carry a region override that differs from the context's region, the new region is the
  catalog code of that override if it validates and the code of a randomly drawn catalog
  region if it does not; when the options carry no override, or one that is the
  context's region already, it is the code of a randomly drawn catalog region.
\<close>

theorem api_setOptions_region:
  assumes "api_setOptions E options (c, m) = (c', m')"
    and "v = optionValue options ''bypassRegion''"
  shows "(truthy v \<and> strictNeq v (region c) \<and> validateRegion v = Inr r \<longrightarrow>
            region c' = Some (code r))
       \<and> (truthy v \<and> strictNeq v (region c) \<and> validateRegion v = Inl e \<longrightarrow>
            region c' = Some (code (getRandomRegion (randomIndex E))))
       \<and> (\<not> (truthy v \<and> strictNeq v (region c)) \<longrightarrow>
            region c' = Some (code (getRandomRegion (randomIndex E))))
       \<and> (\<exists>x \<in> set defaultRegions. region c' = Some (code x)
                \<and> mqttEndpoint c' = Some (endpointURL (code x) (userID c)))"
proof -
  from assms(1) have c': "c' = c\<lparr>region := Some (if truthy v \<and> strictNeq v (region c) then
                    (case validateRegion v of
                       Inr regionObj \<Rightarrow> code regionObj
                     | Inl e \<Rightarrow> code (getRandomRegion (randomIndex E)))
                  else code (getRandomRegion (randomIndex E))),
         mqttEndpoint := Some (endpointURL (if truthy v \<and> strictNeq v (region c) then
                    (case validateRegion v of
                       Inr regionObj \<Rightarrow> code regionObj
                     | Inl e \<Rightarrow> code (getRandomRegion (randomIndex E)))
                  else code (getRandomRegion (randomIndex E))) (userID c))\<rparr>"
    by (auto simp: api_setOptions_def Let_def assms(2))
  have in_cat: "\<And>x. validateRegion v = Inr x \<Longrightarrow> x \<in> set defaultRegions"
    by (auto simp: validateRegion_def Let_def find_Some_iff split: jsval.splits if_splits option.splits)
  show ?thesis
  proof (intro conjI impI)
    assume "truthy v \<and> strictNeq v (region c) \<and> validateRegion v = Inr r"
    then show "region c' = Some (code r)" by (simp add: c')
  next
    assume "truthy v \<and> strictNeq v (region c) \<and> validateRegion v = Inl e"
    then show "region c' = Some (code (getRandomRegion (randomIndex E)))" by (simp add: c')
  next
    assume "\<not> (truthy v \<and> strictNeq v (region c))"
    then have "(if truthy v \<and> strictNeq v (region c) then
                    (case validateRegion v of
                       Inr regionObj \<Rightarrow> code regionObj
                     | Inl e \<Rightarrow> code (getRandomRegion (randomIndex E)))
                  else code (getRandomRegion (randomIndex E)))
               = code (getRandomRegion (randomIndex E))"
      by (rule if_not_P)
    then show "region c' = Some (code (getRandomRegion (randomIndex E)))" by (simp add: c')
  next
    show "\<exists>x \<in> set defaultRegions. region c' = Some (code x)
                \<and> mqttEndpoint c' = Some (endpointURL (code x) (userID c))"
    proof (cases "truthy v \<and> strictNeq v (region c)")
      case False
      then show ?thesis using getRandomRegion_in [of "randomIndex E"] by (auto simp: c')
    next
      case True
      show ?thesis
      proof (cases "validateRegion v")
        case (Inl e')
        with True show ?thesis using getRandomRegion_in [of "randomIndex E"] by (auto simp: c')
      next
        case (Inr x)
        with True in_cat [OF Inr] show ?thesis by (auto simp: c')
      qed
    qed
  qed
qed

theorem api_setOptions_region_witness:
  "region (fst (api_setOptions envExample [(''bypassRegion'', JStr ''sin'')] (ctxExample, machine0)))
     = Some ''SIN''
   \<and> mqttEndpoint (fst (api_setOptions envExample [(''bypassRegion'', JStr ''sin'')] (ctxExample, machine0)))
     = Some ''wss://edge-chat.facebook.com/chat?region=SIN&sid=100001''
   \<and> region (fst (api_setOptions envExample [(''bypassRegion'', JStr ''mars'')] (ctxExample, machine0)))
     = Some ''VLL''
   \<and> region (fst (api_setOptions envExample [(''online'', JBool False)] (ctxExample, machine0)))
     = Some ''VLL''"
proof -
  let ?sin = "\<lparr>code = ''SIN'', name = ''Singapore'', location = ''Singapore''\<rparr>"
  obtain c1 m1 where r1: "api_setOptions envExample [(''bypassRegion'', JStr ''sin'')] (ctxExample, machine0) = (c1, m1)"
    by (cases "api_setOptions envExample [(''bypassRegion'', JStr ''sin'')] (ctxExample, machine0)")
  obtain c2 m2 where r2: "api_setOptions envExample [(''bypassRegion'', JStr ''mars'')] (ctxExample, machine0) = (c2, m2)"
    by (cases "api_setOptions envExample [(''bypassRegion'', JStr ''mars'')] (ctxExample, machine0)")
  obtain c3 m3 where r3: "api_setOptions envExample [(''online'', JBool False)] (ctxExample, machine0) = (c3, m3)"
    by (cases "api_setOptions envExample [(''online'', JBool False)] (ctxExample, machine0)")
  have v1: "JStr ''sin'' = optionValue [(''bypassRegion'', JStr ''sin'')] ''bypassRegion''"
    and v2: "JStr ''mars'' = optionValue [(''bypassRegion'', JStr ''mars'')] ''bypassRegion''"
    and v3: "JUndefined = optionValue [(''online'', JBool False)] ''bypassRegion''"
    by (simp_all add: optionValue_def)
  note t1 = api_setOptions_region [OF r1 v1, of ?sin]
  from t1 validate_sin have a: "region c1 = Some ''SIN''" by (simp add: ctxExample_def)
  from t1 have "\<exists>x \<in> set defaultRegions. region c1 = Some (code x)
        \<and> mqttEndpoint c1 = Some (endpointURL (code x) (userID ctxExample))"
    by (simp add: ctxExample_def)
  with a have a2: "mqttEndpoint c1 = Some ''wss://edge-chat.facebook.com/chat?region=SIN&sid=100001''"
    by (auto simp: endpointURL_def ctxExample_def)
  from api_setOptions_region [OF r2 v2, where e = "Error (''Invalid region code: mars. Supported regions: '' @ supportedRegions)"]
    validate_mars random_vll
  have b: "region c2 = Some ''VLL''" by (simp add: ctxExample_def)
  from api_setOptions_region [OF r3 v3] random_vll
  have c: "region c3 = Some ''VLL''" by simp
  from a a2 b c r1 r2 r3 show ?thesis by simp
qed

text \<open>
  The claim as written has a call that does not touch the region override leave the
  region and the endpoint as they were. A call that only sets \<open>online\<close>, on a context in
  region PRN, leaves the global override as it was and yet moves the context to the drawn
  region VLL, with a new endpoint.
\<close>

theorem api_setOptions_unchanged_counterexample:
  "region ctxExample = Some ''PRN''
   \<and> optionValue [(''online'', JBool False)] ''bypassRegion'' = JUndefined
   \<and> globalOptions (snd (api_setOptions envExample [(''online'', JBool False)] (ctxExample, machine0)))
        ''bypassRegion'' = globalOptions machine0 ''bypassRegion''
   \<and> region (fst (api_setOptions envExample [(''online'', JBool False)] (ctxExample, machine0)))
        = Some ''VLL''
   \<and> mqttEndpoint (fst (api_setOptions envExample [(''online'', JBool False)] (ctxExample, machine0)))
        \<noteq> mqttEndpoint ctxExample"
  by (simp add: api_setOptions_def optionValue_def ctxExample_def random_vll endpointURL_def
      setOptions_def setOption_def booleanOptions_def machine0_def)

section \<open>Properties of the login orchestrator\<close>

lemmas flow_defs = mainPromise_def thenF_def firstPromise_def fetch_def redirect_def
  checkAndFixErr_def reloadIfNeeded_def bypassAutoBehavior_def updateDTSG_def buildAPI_def
  resolve_def reject_def optionSet_def bodyText_def hrefIncludes_def appStateOrEmpty_def
  resolveUID_def

lemmas sample_defs = envFinal_def sessionCredentials_def machine0_def loadedResp_def
  suspendedResp_def suspendedBody_def suspendedLong_def lockedResp_def handleExample_def
  defaultGlobalOptions_def

lemmas text_defs = refreshRx_def dtsgInitialRx_def dq_def checkpointURL_def automationFlow_def
  boilerplate_def isLineTerminator_def dtsgStart_def dtsgEnd_def jazoestStart_def jazoestEnd_def
  rootURL_def homeURL_def

lemma main_suspended:
  "fst (mainPromise (envFinal suspendedResp) sessionCredentials machine0)
     = Inr (suspendedResp, handleExample)"
  by (simp add: flow_defs sample_defs text_defs)

lemma main_locked:
  "fst (mainPromise (envFinal lockedResp) sessionCredentials machine0)
     = Inr (lockedResp, handleExample)"
  by (simp add: flow_defs sample_defs text_defs)

lemma main_loaded:
  "fst (mainPromise (envFinal loadedResp) sessionCredentials machine0)
     = Inr (loadedResp, handleExample)"
  by (simp add: flow_defs sample_defs text_defs)


lemma locked_outcome:
  "checkIfLocked lockedResp = Some \<lparr>reason = Some ''Your account is locked''\<rparr>"
  by (simp add: checkIfLocked_def hrefIncludes_def lockedResp_def checkpointURL_def lockedFlow_def
      lockRx_def dq_def isLineTerminator_def)

lemma suspended_not_locked: "checkIfLocked suspendedResp = None"
  by (simp add: checkIfLocked_def hrefIncludes_def suspendedResp_def checkpointURL_def lockedFlow_def)

lemma loaded_clean: "checkIfLocked loadedResp = None" "checkIfSuspended loadedResp = None"
  by (simp_all add: checkIfLocked_def checkIfSuspended_def hrefIncludes_def loadedResp_def
      checkpointURL_def)

text \<open>
  C1. Whenever the chain of \<open>loginHelper\<close> reaches its end with a final response, the
  lock check and the suspension check run on that response: a lock ends the login with
  the lock object, whatever the suspension check would say; otherwise a suspension ends
  it with the suspension object; and only when both report nothing does the callback
  receive the session handle.
\<close>

theorem loginHelper_final_check:
  assumes "mainPromise E credentials m = (Inr (res, api), m')"
  shows "(checkIfLocked res = Some l \<longrightarrow>
            loginHelper E credentials m = (Inl (Locked l), m'))
       \<and> (checkIfLocked res = None \<and> checkIfSuspended res = Some s \<longrightarrow>
            loginHelper E credentials m = (Inl (Suspended s), m'))
       \<and> (checkIfLocked res = None \<and> checkIfSuspended res = None \<longrightarrow>
            loginHelper E credentials m = (Inr api, m'))"
  using assms by (simp add: loginHelper_def thenF_def finalCheck_def reject_def resolve_def)

theorem loginHelper_final_check_witness:
  "fst (loginHelper (envFinal lockedResp) sessionCredentials machine0)
     = Inl (Locked \<lparr>reason = Some ''Your account is locked''\<rparr>)
   \<and> fst (loginHelper (envFinal suspendedResp) sessionCredentials machine0)
     = Inl (Suspended \<lparr>durationInfo = Some ''30 days left'', longReason = Some suspendedLong,
                        shortReason = Some ''Account integrity''\<rparr>)
   \<and> fst (loginHelper (envFinal loadedResp) sessionCredentials machine0) = Inr handleExample"
proof -
  have l: "mainPromise (envFinal lockedResp) sessionCredentials machine0
             = (Inr (lockedResp, handleExample),
                snd (mainPromise (envFinal lockedResp) sessionCredentials machine0))"
    using main_locked by (simp add: prod_eq_iff)
  have s: "mainPromise (envFinal suspendedResp) sessionCredentials machine0
             = (Inr (suspendedResp, handleExample),
                snd (mainPromise (envFinal suspendedResp) sessionCredentials machine0))"
    using main_suspended by (simp add: prod_eq_iff)
  have c: "mainPromise (envFinal loadedResp) sessionCredentials machine0
             = (Inr (loadedResp, handleExample),
                snd (mainPromise (envFinal loadedResp) sessionCredentials machine0))"
    using main_loaded by (simp add: prod_eq_iff)
  from loginHelper_final_check [OF l, of "\<lparr>reason = Some ''Your account is locked''\<rparr>"]
    locked_outcome
  have 1: "fst (loginHelper (envFinal lockedResp) sessionCredentials machine0)
     = Inl (Locked \<lparr>reason = Some ''Your account is locked''\<rparr>)" by simp
  from loginHelper_final_check [OF s, where s = "\<lparr>durationInfo = Some ''30 days left'',
      longReason = Some suspendedLong, shortReason = Some ''Account integrity''\<rparr>"]
    suspended_not_locked suspended_outcome
  have 2: "fst (loginHelper (envFinal suspendedResp) sessionCredentials machine0)
     = Inl (Suspended \<lparr>durationInfo = Some ''30 days left'', longReason = Some suspendedLong,
                        shortReason = Some ''Account integrity''\<rparr>)" by simp
  from loginHelper_final_check [OF c] loaded_clean
  have 3: "fst (loginHelper (envFinal loadedResp) sessionCredentials machine0) = Inr handleExample"
    by simp
  from 1 2 3 show ?thesis by simp
qed

text \<open>
  C4. On the credential path (no stored session, an email and a password), when the
  root page arrives, the form is extracted and the response to the submission has no
  redirect location, the login ends with the error \<open>Invalid credentials.\<close>, and the two
  requests made are the root page and the submission.
\<close>

theorem makeLogin_missing_location:
  assumes "cred_appState credentials = None \<or> cred_appState credentials = Some []"
    and "truthyStr (cred_email credentials)" and "truthyStr (cred_password credentials)"
    and "net E (length (requests m)) = Inr page"
    and "getFrom E (body page) lsdStart loginLsdEnd = Inr lsd"
    and "body page = Some html" and "jsCookies E html = Inr ()"
    and "net E (Suc (length (requests m))) = Inr resData"
    and "\<not> truthyStr (headers_location resData)"
  shows "loginHelper E credentials m
           = (Inl (Error ''Invalid credentials.''),
              m\<lparr>requests := requests m @ [GET rootURL, POST loginURL]\<rparr>)"
proof -
  have first: "firstPromise E credentials m
           = (Inl (Error ''Invalid credentials.''),
              m\<lparr>requests := requests m @ [GET rootURL, POST loginURL]\<rparr>)"
    using assms
    by (auto simp: firstPromise_def thenF_def fetch_def makeLogin_def reject_def)
  then show ?thesis by (simp add: loginHelper_def mainPromise_def thenF_def)
qed

theorem makeLogin_missing_location_witness:
  "loginHelper envRejected passwordCredentials machine0
     = (Inl (Error ''Invalid credentials.''),
        machine0\<lparr>requests := requests machine0 @ [GET rootURL, POST loginURL]\<rparr>)"
  by (rule makeLogin_missing_location [where page = loadedResp and resData = rejectedResp
        and lsd = "''token''" and html = "''<html>MPageLoadClientMetrics</html>''"])
     (simp_all add: envRejected_def passwordCredentials_def machine0_def loadedResp_def
        rejectedResp_def)

text \<open>
  C10. The input \<open>{appState: []}\<close> passes the credential normalizer, which returns an
  empty stored session; \<open>loginHelper\<close> then takes neither the session path nor the
  password path and ends with \<open>Unsupported credential type\<close> on an unchanged machine, so
  that \<open>login\<close> fails with that error without having issued a request.
\<close>

theorem unsupported_credentials_before_network:
  "normalizeLoginCredentials t (Some emptySession)
     = Inr \<lparr>cred_appState = Some [], cred_email = None, cred_password = None\<rparr>
   \<and> loginHelper E \<lparr>cred_appState = Some [], cred_email = None, cred_password = None\<rparr> m
     = (Inl (Error ''Unsupported credential type''), m)
   \<and> fst (login E (Some emptySession) options m) = Inl (Error ''Unsupported credential type'')
   \<and> requests (snd (login E (Some emptySession) options m)) = requests m"
proof (intro conjI)
  show n: "normalizeLoginCredentials t (Some emptySession)
     = Inr \<lparr>cred_appState = Some [], cred_email = None, cred_password = None\<rparr>" for t
    by (simp add: normalizeLoginCredentials_def emptySession_def)
  show h: "loginHelper E \<lparr>cred_appState = Some [], cred_email = None, cred_password = None\<rparr> m
     = (Inl (Error ''Unsupported credential type''), m)" for m
    by (simp add: loginHelper_def mainPromise_def firstPromise_def thenF_def reject_def)
  show "fst (login E (Some emptySession) options m) = Inl (Error ''Unsupported credential type'')"
    by (simp add: login_def n h Let_def)
  show "requests (snd (login E (Some emptySession) options m)) = requests m"
    by (simp add: login_def n h Let_def setOptions_def)
qed

theorem unsupported_credentials_before_network_witness:
  "fst (login envExample (Some emptySession) [] machine0)
     = Inl (Error ''Unsupported credential type'')
   \<and> requests (snd (login envExample (Some emptySession) [] machine0)) = []"
  using unsupported_credentials_before_network [of 0 envExample machine0 "[]"]
  by (simp add: machine0_def)

end
